theory Spec2Isabelle
  imports Main
begin

section \<open>Secure desktop continuity of NVDA Remote: the handler and its collaborators\<close>

text \<open>
  The development embeds \<^verbatim>\<open>source/_remoteClient/secureDesktop.py\<close> (class
  \<^verbatim>\<open>SecureDesktopHandler\<close>) and the handler registry of
  \<^verbatim>\<open>source/extensionPoints/util.py\<close> (class \<^verbatim>\<open>HandlerRegistrar\<close>).

  The handler drives the operating system and its collaborators (relay server, relay
  transport, bridge, follower session). Every call it makes on them is recorded, in program order, in a list
  of operations; what a call answers (a handle, a failure, a port, a token) is not decided
  by the handler and is read from a record of answers, one per invocation of a method.
  Calls of the logger are recorded apart, by their level. The collaborators' own code is
  outside the handler's module; as the specification describes them (\<^verbatim>\<open>close\<close> safe to
  call more than once, \<^verbatim>\<open>disconnect\<close> idempotent), their constructors and their
  \<^verbatim>\<open>close\<close>, \<^verbatim>\<open>disconnect\<close>, \<^verbatim>\<open>registerInbound\<close>, \<^verbatim>\<open>unregisterInbound\<close> and
  \<^verbatim>\<open>setDisplaySize\<close> methods return normally, except in
  \<open>leaveSecureDesktop_raising\<close>, which follows \<^verbatim>\<open>leaveSecureDesktop\<close> when they raise.
\<close>

subsection \<open>Data\<close>

type_synonym HANDLE = nat
type_synonym address = nat

datatype ConnectionMode = LEADER | FOLLOWER

datatype RemoteMessageType = SET_BRAILLE_INFO | CLIENT_JOINED | SET_DISPLAY_SIZE

text \<open>Python exceptions (subclasses of \<^verbatim>\<open>Exception\<close>) that the modelled code meets.\<close>

datatype exn = ValueError | TypeError | RuntimeError | AttributeError | AssertionError
  | JSONDecodeError | OSError

text \<open>The answer of \<^verbatim>\<open>WaitForSingleObject\<close>; the source compares it with three members
  of the enumeration \<^verbatim>\<open>WAIT\<close> and treats every other value as unknown.\<close>

datatype WAIT = OBJECT_0 | TIMEOUT | FAILED | UNKNOWN nat

record RelayTransport =
  rtAddress :: "string \<times> int"
  rtChannel :: string
  rtInsecure :: bool
  rtConnectionType :: ConnectionMode

record LocalRelayServer =
  lsPort :: int
  lsPassword :: string
  lsBindHost :: string

record BridgeTransport =
  t1 :: RelayTransport
  t2 :: RelayTransport

text \<open>A follower session is known to the handler by its identity and its transport, which
  the source tests against \<^verbatim>\<open>None\<close>.\<close>

record FollowerSession =
  sessionId :: nat
  transport :: "RelayTransport option"

text \<open>The fields of \<^verbatim>\<open>SecureDesktopHandler\<close>; \<open>mapFile\<close> and \<open>bufferAddress\<close> are the
  source's \<^verbatim>\<open>_mapFile\<close> and \<^verbatim>\<open>_bufferAddress\<close>, \<open>ipcEventHandle\<close> is
  \<^verbatim>\<open>_ipcEventHandle\<close> and \<open>followerSession\<close> is \<^verbatim>\<open>_followerSession\<close>.\<close>

record SecureDesktopHandler =
  mapFile :: "HANDLE option"
  bufferAddress :: "address option"
  ipcEventHandle :: HANDLE
  followerSession :: "FollowerSession option"
  sdServer :: "LocalRelayServer option"
  sdRelay :: "RelayTransport option"
  sdBridge :: "BridgeTransport option"

text \<open>Values that \<^verbatim>\<open>json.loads\<close> can return; a float is kept as its literal.\<close>

datatype json = JNull | JBool bool | JInt int | JFloat string | JStr string
  | JArr "json list" | JObj "(string \<times> json) list"

record ConnectionInfo =
  hostname :: string
  mode :: ConnectionMode
  key :: json
  port :: json
  insecure :: bool

text \<open>The operations performed on the operating system and on the collaborators.
  \<open>CreateEvent manualReset initialState name\<close> carries the second, third and fourth
  argument of the Win32 call (the first, the security attributes, is \<^verbatim>\<open>None\<close>).
  \<open>BufferStore a cells\<close> is a store through the \<^verbatim>\<open>WCHAR\<close> array at address \<open>a\<close> that
  leaves the array holding \<open>cells\<close>.\<close>

datatype op =
    CreateEvent bool bool string
  | RegisterStateChange
  | CreateFileMapping nat string
  | OpenFileMapping string
  | MapViewOfFile HANDLE nat
  | UnmapViewOfFile address
  | closeHandle HANDLE
  | SetEvent HANDLE
  | ResetEvent HANDLE
  | WaitForSingleObject HANDLE nat
  | BufferStore address string
  | BufferRead address
  | ServerNew LocalRelayServer
  | ServerRunThread LocalRelayServer
  | ServerClose LocalRelayServer
  | RelayNew RelayTransport
  | RelayRunThread RelayTransport
  | RelayClose RelayTransport
  | registerInbound RelayTransport RemoteMessageType
  | unregisterInbound RelayTransport RemoteMessageType
  | BridgeNew BridgeTransport
  | BridgeDisconnect BridgeTransport
  | setDisplaySize FollowerSession
  | SocketOpen
  | SocketClose
  | GetModuleFileName
  | localListeningSocketExists json

text \<open>The calls of the logger, by level.\<close>

datatype logcall = log_debug | log_info | log_warning | log_error | log_debugWarning
  | log_exception

text \<open>The answers of the environment during one invocation of a method. \<open>viewCells\<close> is
  the content of the mapped view, cell by cell, when the view is mapped;
  \<open>alreadyExists\<close> says that \<^verbatim>\<open>GetLastError()\<close> is \<^verbatim>\<open>ERROR_ALREADY_EXISTS\<close> after
  \<^verbatim>\<open>CreateFileMapping\<close>.\<close>

record answers =
  CreateEvent_result :: "HANDLE option"
  CreateFileMapping_result :: "HANDLE option"
  alreadyExists :: bool
  OpenFileMapping_result :: "HANDLE option"
  MapViewOfFile_result :: "address option"
  UnmapViewOfFile_ok :: bool
  closeHandle_ok :: "HANDLE \<Rightarrow> bool"
  SetEvent_ok :: bool
  ResetEvent_ok :: bool
  WaitForSingleObject_result :: WAIT
  viewCells :: "nat \<Rightarrow> char"
  uuid4 :: string
  getsockname_port :: int
  json_loads :: "string \<Rightarrow> exn + json"
  socket_error :: "exn option"
  listeningSocketExists :: "json \<Rightarrow> exn + bool"

text \<open>What an invocation leaves: how it ended (\<open>Inl\<close> an exception that escapes to the
  caller, \<open>Inr\<close> the returned value), the handler afterwards, the operations performed and
  the calls of the logger.\<close>

record 'r run =
  outcome :: "exn + 'r"
  after :: SecureDesktopHandler
  ops :: "op list"
  logs :: "logcall list"

subsection \<open>Constants of the class\<close>

definition IPC_FILENAME :: string where
  "IPC_FILENAME = ''Local'' @ [CHR 0x5C] @ ''NVDARemoteAccessSDHIPCFile''"


definition IPC_MAXLEN :: nat where
  "IPC_MAXLEN = 64"

text \<open>\<^verbatim>\<open>sizeof(WCHAR)\<close> on Windows.\<close>

definition sizeof_WCHAR :: nat where
  "sizeof_WCHAR = 2"

definition NUL :: char where
  "NUL = CHR 0x00"

subsection \<open>\<^verbatim>\<open>json.dumps([port, channel])\<close>\<close>

text \<open>Python's \<^verbatim>\<open>json.dumps\<close> with its defaults (\<^verbatim>\<open>ensure_ascii=True\<close>, item
  separator \<^verbatim>\<open>", "\<close>) on a list of an integer and a string. A character is a code point
  below 256 here.\<close>

definition digit_char :: "nat \<Rightarrow> char" where
  "digit_char d = ''0123456789abcdef'' ! d"

fun str_nat :: "nat \<Rightarrow> string" where
  "str_nat n = (if n < 10 then [digit_char n] else str_nat (n div 10) @ [digit_char (n mod 10)])"

declare str_nat.simps [simp del]

definition str_int :: "int \<Rightarrow> string" where
  "str_int i = (if i < 0 then CHR ''-'' # str_nat (nat (- i)) else str_nat (nat i))"

definition hex4 :: "nat \<Rightarrow> string" where
  "hex4 n = [digit_char (n div 4096 mod 16), digit_char (n div 256 mod 16),
             digit_char (n div 16 mod 16), digit_char (n mod 16)]"

definition escape_char :: "char \<Rightarrow> string" where
  "escape_char c =
    (if c = CHR 0x5C then [CHR 0x5C, CHR 0x5C]
     else if c = CHR 0x22 then [CHR 0x5C, CHR 0x22]
     else if c = CHR 0x08 then [CHR 0x5C, CHR ''b'']
     else if c = CHR 0x0C then [CHR 0x5C, CHR ''f'']
     else if c = CHR 0x0A then [CHR 0x5C, CHR ''n'']
     else if c = CHR 0x0D then [CHR 0x5C, CHR ''r'']
     else if c = CHR 0x09 then [CHR 0x5C, CHR ''t'']
     else if 32 \<le> (of_char c :: nat) \<and> (of_char c :: nat) \<le> 126 then [c]
     else [CHR 0x5C, CHR ''u''] @ hex4 (of_char c))"

definition encode_string :: "string \<Rightarrow> string" where
  "encode_string s = [CHR 0x22] @ concat (map escape_char s) @ [CHR 0x22]"

definition json_dumps :: "int \<Rightarrow> string \<Rightarrow> string" where
  "json_dumps p c = ''['' @ str_int p @ '', '' @ encode_string c @ '']''"

subsection \<open>The \<^verbatim>\<open>WCHAR\<close> array over the mapped view\<close>

text \<open>Assigning \<^verbatim>\<open>buffer.value\<close>, as the comment in \<^verbatim>\<open>enterSecureDesktop\<close> records it: a
  string longer than the array is refused with \<^verbatim>\<open>ValueError\<close>; a shorter one is stored
  followed by a terminating null; one of exactly the array's length is stored with no null.\<close>

definition set_value :: "string \<Rightarrow> string \<Rightarrow> exn + string" where
  "set_value cells v =
    (if length cells < length v then Inl ValueError
     else if length v < length cells then Inr (v @ [NUL] @ drop (length v + 1) cells)
     else Inr v)"

text \<open>\<^verbatim>\<open>wstring_at\<close>: the characters up to the first null.\<close>

definition wstring_at :: "string \<Rightarrow> string" where
  "wstring_at cells = takeWhile (\<lambda>c. c \<noteq> NUL) cells"

text \<open>\<^verbatim>\<open>(WCHAR * _IPC_MAXLEN).from_address(bufferAddress)\<close>: the first 64 cells of the view.\<close>

definition buffer :: "answers \<Rightarrow> string" where
  "buffer a = map (viewCells a) [0..<IPC_MAXLEN]"

subsection \<open>Sequencing\<close>

definition begin_run :: "SecureDesktopHandler \<Rightarrow> unit run" where
  "begin_run s = \<lparr>outcome = Inr (), after = s, ops = [], logs = []\<rparr>"

definition perform :: "op \<Rightarrow> 'r run \<Rightarrow> 'r run" where
  "perform x r = r\<lparr>ops := ops r @ [x]\<rparr>"

definition log :: "logcall \<Rightarrow> 'r run \<Rightarrow> 'r run" where
  "log l r = r\<lparr>logs := logs r @ [l]\<rparr>"

definition assign :: "(SecureDesktopHandler \<Rightarrow> SecureDesktopHandler) \<Rightarrow> 'r run \<Rightarrow> 'r run" where
  "assign f r = r\<lparr>after := f (after r)\<rparr>"

definition raises :: "exn \<Rightarrow> 'q run \<Rightarrow> 'r run" where
  "raises e r = \<lparr>outcome = Inl e, after = after r, ops = ops r, logs = logs r\<rparr>"

definition returns :: "'r \<Rightarrow> 'q run \<Rightarrow> 'r run" where
  "returns v r = \<lparr>outcome = Inr v, after = after r, ops = ops r, logs = logs r\<rparr>"

text \<open>Calling a method of the handler in the middle of a run.\<close>

definition call :: "(SecureDesktopHandler \<Rightarrow> 'r run) \<Rightarrow> 'q run \<Rightarrow> 'r run" where
  "call f r = (let c = f (after r) in
     \<lparr>outcome = outcome c, after = after c, ops = ops r @ ops c, logs = logs r @ logs c\<rparr>)"

subsection \<open>\<^verbatim>\<open>SecureDesktopHandler.__init__\<close>\<close>


subsection \<open>\<^verbatim>\<open>leaveSecureDesktop\<close>\<close>

definition leaveSecureDesktop :: "answers \<Rightarrow> SecureDesktopHandler \<Rightarrow> unit run" where
  "leaveSecureDesktop a s =
    (let r = log log_debug (begin_run s) in
     if sdServer s = None then log log_debug r
     else
      let r = (case sdBridge (after r) of None \<Rightarrow> r
               | Some b \<Rightarrow> assign (\<lambda>h. h\<lparr>sdBridge := None\<rparr>) (perform (BridgeDisconnect b) r));
          r = (case sdServer (after r) of None \<Rightarrow> r
               | Some sv \<Rightarrow> assign (\<lambda>h. h\<lparr>sdServer := None\<rparr>) (perform (ServerClose sv) r));
          r = (case sdRelay (after r) of None \<Rightarrow> r
               | Some rl \<Rightarrow> assign (\<lambda>h. h\<lparr>sdRelay := None\<rparr>) (perform (RelayClose rl) r));
          r = (case followerSession (after r) of None \<Rightarrow> r
               | Some fs \<Rightarrow>
                  (case transport fs of None \<Rightarrow> r
                   | Some ft \<Rightarrow>
                      perform (setDisplaySize fs)
                        (perform (unregisterInbound ft SET_BRAILLE_INFO) r)));
          r = perform (ResetEvent (ipcEventHandle (after r))) r;
          r = (if \<not> ResetEvent_ok a then log log_debugWarning r else r);
          r = (case bufferAddress (after r) of None \<Rightarrow> r
               | Some b \<Rightarrow>
                  let r = perform (UnmapViewOfFile b) r;
                      r = (if \<not> UnmapViewOfFile_ok a then log log_debugWarning r else r)
                  in assign (\<lambda>h. h\<lparr>bufferAddress := None\<rparr>) r);
          r = (case mapFile (after r) of None \<Rightarrow> r
               | Some m \<Rightarrow>
                  let r = perform (closeHandle m) r;
                      r = (if \<not> closeHandle_ok a m then log log_debugWarning r else r)
                  in assign (\<lambda>h. h\<lparr>mapFile := None\<rparr>) r)
      in r)"

subsection \<open>\<^verbatim>\<open>leaveSecureDesktop\<close> when a collaborator raises\<close>

text \<open>The calls that \<^verbatim>\<open>leaveSecureDesktop\<close> makes on the bridge, the relay server, the relay
  transport, the follower transport and the follower session stand in no \<^verbatim>\<open>try\<close>: an
  exception raised by one of them ends the method there and escapes to the caller.
  \<open>raising x\<close> is the exception that the collaborator call \<open>x\<close> raises, if it raises one.
  \<^verbatim>\<open>ResetEvent\<close>, \<^verbatim>\<open>UnmapViewOfFile\<close> and \<^verbatim>\<open>closeHandle\<close> report a failure by their
  result and raise nothing.\<close>

definition invoke :: "(op \<Rightarrow> exn option) \<Rightarrow> op \<Rightarrow> unit run \<Rightarrow> unit run" where
  "invoke raising x r =
    (case raising x of None \<Rightarrow> perform x r | Some e \<Rightarrow> raises e (perform x r))"

text \<open>The statements that follow run only when the run so far has raised nothing.\<close>

definition and_then :: "unit run \<Rightarrow> (unit run \<Rightarrow> unit run) \<Rightarrow> unit run" where
  "and_then r f = (case outcome r of Inl e \<Rightarrow> r | Inr u \<Rightarrow> f r)"

definition leaveSecureDesktop_raising ::
  "(op \<Rightarrow> exn option) \<Rightarrow> answers \<Rightarrow> SecureDesktopHandler \<Rightarrow> unit run" where
  "leaveSecureDesktop_raising raising a s =
    (let r = log log_debug (begin_run s) in
     if sdServer s = None then log log_debug r
     else
      and_then
        (case sdBridge (after r) of None \<Rightarrow> r
         | Some b \<Rightarrow>
            and_then (invoke raising (BridgeDisconnect b) r)
              (assign (\<lambda>h. h\<lparr>sdBridge := None\<rparr>)))
      (\<lambda>r. and_then
        (case sdServer (after r) of None \<Rightarrow> r
         | Some sv \<Rightarrow>
            and_then (invoke raising (ServerClose sv) r)
              (assign (\<lambda>h. h\<lparr>sdServer := None\<rparr>)))
      (\<lambda>r. and_then
        (case sdRelay (after r) of None \<Rightarrow> r
         | Some rl \<Rightarrow>
            and_then (invoke raising (RelayClose rl) r)
              (assign (\<lambda>h. h\<lparr>sdRelay := None\<rparr>)))
      (\<lambda>r. and_then
        (case followerSession (after r) of None \<Rightarrow> r
         | Some fs \<Rightarrow>
            (case transport fs of None \<Rightarrow> r
             | Some ft \<Rightarrow>
                and_then (invoke raising (unregisterInbound ft SET_BRAILLE_INFO) r)
                  (invoke raising (setDisplaySize fs))))
      (\<lambda>r.
        let r = perform (ResetEvent (ipcEventHandle (after r))) r;
            r = (if \<not> ResetEvent_ok a then log log_debugWarning r else r);
            r = (case bufferAddress (after r) of None \<Rightarrow> r
                 | Some b \<Rightarrow>
                    let r = perform (UnmapViewOfFile b) r;
                        r = (if \<not> UnmapViewOfFile_ok a then log log_debugWarning r else r)
                    in assign (\<lambda>h. h\<lparr>bufferAddress := None\<rparr>) r);
            r = (case mapFile (after r) of None \<Rightarrow> r
                 | Some m \<Rightarrow>
                    let r = perform (closeHandle m) r;
                        r = (if \<not> closeHandle_ok a m then log log_debugWarning r else r)
                    in assign (\<lambda>h. h\<lparr>mapFile := None\<rparr>) r)
        in r)))))"

subsection \<open>\<^verbatim>\<open>enterSecureDesktop\<close>\<close>

text \<open>The body of the \<^verbatim>\<open>try\<close>: assign \<^verbatim>\<open>buffer.value\<close>, then test the last cell.\<close>

definition write_ipc :: "address \<Rightarrow> string \<Rightarrow> string \<Rightarrow> unit run \<Rightarrow> unit run" where
  "write_ipc addr cells payload r =
    (let r = log log_debug r in
     case set_value cells payload of
       Inl e \<Rightarrow> raises e r
     | Inr cells' \<Rightarrow>
        let r = perform (BufferStore addr cells') r in
        if last cells' \<noteq> NUL then raises ValueError r else r)"

definition enterSecureDesktop :: "answers \<Rightarrow> SecureDesktopHandler \<Rightarrow> unit run" where
  "enterSecureDesktop a s =
    (let r = log log_debug (begin_run s) in
     case followerSession s of None \<Rightarrow> log log_warning r
     | Some fs \<Rightarrow>
     (case transport fs of None \<Rightarrow> log log_warning r
     | Some ft \<Rightarrow>
      (let r = log log_debug r;
           r = perform (CreateFileMapping (IPC_MAXLEN * sizeof_WCHAR) IPC_FILENAME) r
       in
       (case CreateFileMapping_result a of None \<Rightarrow> log log_error r
       | Some mapFile' \<Rightarrow>
        (let r = (if alreadyExists a then log log_debugWarning r else r);
             r = perform (MapViewOfFile mapFile' (IPC_MAXLEN * sizeof_WCHAR)) r
         in
         (case MapViewOfFile_result a of
           None \<Rightarrow>
            (let r = log log_error r;
                 r = perform (closeHandle mapFile') r
             in if \<not> closeHandle_ok a mapFile' then log log_debugWarning r else r)
         | Some bufferAddress' \<Rightarrow>
            (let channel = uuid4 a;
                 r = log log_debug r;
                 srv = \<lparr>lsPort = 0, lsPassword = channel, lsBindHost = ''127.0.0.1''\<rparr>;
                 r = assign (\<lambda>h. h\<lparr>sdServer := Some srv\<rparr>) (perform (ServerNew srv) r);
                 port' = getsockname_port a;
                 r = log log_info r;
                 r = write_ipc bufferAddress' (buffer a) (json_dumps port' channel) r
             in
             (case outcome r of
               Inl e \<Rightarrow>
                (if e = ValueError then
                  (let r = log log_exception (returns () r);
                       r = perform (UnmapViewOfFile bufferAddress') r;
                       r = (if \<not> UnmapViewOfFile_ok a then log log_debugWarning r else r);
                       r = perform (closeHandle mapFile') r;
                       r = (if \<not> closeHandle_ok a mapFile' then log log_debugWarning r else r);
                       r = perform (ServerClose srv) r
                   in assign (\<lambda>h. h\<lparr>sdServer := None\<rparr>) r)
                 else r)
             | Inr _ \<Rightarrow>
                (let r = perform (ServerRunThread srv) r;
                     relay = \<lparr>rtAddress = (''127.0.0.1'', port'), rtChannel = channel,
                              rtInsecure = True, rtConnectionType = LEADER\<rparr>;
                     r = assign (\<lambda>h. h\<lparr>sdRelay := Some relay\<rparr>) (perform (RelayNew relay) r);
                     r = perform (registerInbound relay CLIENT_JOINED) r;
                     r = perform (registerInbound ft SET_BRAILLE_INFO) r;
                     bridge = \<lparr>t1 = ft, t2 = relay\<rparr>;
                     r = assign (\<lambda>h. h\<lparr>sdBridge := Some bridge\<rparr>)
                           (perform (BridgeNew bridge) r);
                     r = perform (RelayRunThread relay) r;
                     r = assign (\<lambda>h. h\<lparr>mapFile := Some mapFile',
                                          bufferAddress := Some bufferAddress'\<rparr>) r;
                     r = perform (SetEvent (ipcEventHandle (after r))) r;
                     r = (if \<not> SetEvent_ok a then log log_error r else r)
                 in log log_info r)))))))))"

subsection \<open>The setter of \<^verbatim>\<open>followerSession\<close> and \<^verbatim>\<open>_onSecureDesktopChange\<close>\<close>

text \<open>The setter calls \<^verbatim>\<open>session.transport.registerInbound\<close> without testing the
  transport: on a session with no transport the attribute access raises
  \<^verbatim>\<open>AttributeError\<close>, after the assignment of \<^verbatim>\<open>_followerSession\<close>.\<close>

definition set_followerSession ::
  "answers \<Rightarrow> SecureDesktopHandler \<Rightarrow> FollowerSession option \<Rightarrow> unit run" where
  "set_followerSession a s session =
    (let r = begin_run s in
     if followerSession s = session then log log_debug r
     else
      let r = log log_info r;
          r = (if sdServer (after r) \<noteq> None then call (leaveSecureDesktop a) r else r);
          r = (case followerSession (after r) of None \<Rightarrow> r
               | Some old \<Rightarrow>
                  (case transport old of None \<Rightarrow> r
                   | Some t \<Rightarrow> perform (unregisterInbound t SET_BRAILLE_INFO) r));
          r = assign (\<lambda>h. h\<lparr>followerSession := session\<rparr>) r
      in case session of None \<Rightarrow> r
         | Some new \<Rightarrow>
            (case transport new of None \<Rightarrow> raises AttributeError r
             | Some t \<Rightarrow> perform (registerInbound t SET_BRAILLE_INFO) r))"

definition onSecureDesktopChange ::
  "answers \<Rightarrow> SecureDesktopHandler \<Rightarrow> bool option \<Rightarrow> unit run" where
  "onSecureDesktopChange a s isSecureDesktop =
    (let r = log log_info (begin_run s) in
     if isSecureDesktop = Some True then call (enterSecureDesktop a) r
     else call (leaveSecureDesktop a) r)"

subsection \<open>\<^verbatim>\<open>initializeSecureDesktop\<close>\<close>

text \<open>\<^verbatim>\<open>port, channel = data\<close>: a list, a string or a dictionary of exactly two items
  unpacks (a string into its characters, a dictionary into its keys); another length is a
  \<^verbatim>\<open>ValueError\<close>, a value that cannot be iterated a \<^verbatim>\<open>TypeError\<close>.\<close>

fun unpack2 :: "json \<Rightarrow> exn + json \<times> json" where
  "unpack2 (JArr [x, y]) = Inr (x, y)"
| "unpack2 (JArr _) = Inl ValueError"
| "unpack2 (JStr [c, d]) = Inr (JStr [c], JStr [d])"
| "unpack2 (JStr _) = Inl ValueError"
| "unpack2 (JObj [(k, _), (l, _)]) = Inr (JStr k, JStr l)"
| "unpack2 (JObj _) = Inl ValueError"
| "unpack2 _ = Inl TypeError"

text \<open>The body of the \<^verbatim>\<open>try\<close>. \<^verbatim>\<open>wstring_at(bufferAddress)\<close> is given no size and
  reads up to the first null, wherever that is; the text read here is the one within the 64
  cells of the array, and what \<^verbatim>\<open>json.loads\<close> makes of the text read is an answer of
  the environment in either case.\<close>

definition read_connection :: "answers \<Rightarrow> address \<Rightarrow> unit run \<Rightarrow> ConnectionInfo run" where
  "read_connection a addr r =
    (let r = log log_debug r;
         r = perform (BufferRead addr) r
     in
     (case json_loads a (wstring_at (buffer a)) of Inl e \<Rightarrow> raises e r
     | Inr data \<Rightarrow>
      (case unpack2 data of Inl e \<Rightarrow> raises e r
      | Inr (port', channel) \<Rightarrow>
       (let r = perform SocketOpen r in
        (case socket_error a of Some e \<Rightarrow> raises e r
        | None \<Rightarrow>
         (let r = perform SocketClose r;
              r = perform GetModuleFileName r;
              r = perform (localListeningSocketExists port') r
          in
          (case listeningSocketExists a port' of Inl e \<Rightarrow> raises e r
          | Inr found \<Rightarrow>
             (if \<not> found then raises RuntimeError r
              else returns \<lparr>hostname = ''127.0.0.1'', mode = FOLLOWER, key = channel,
                             port = port', insecure = True\<rparr> (log log_info r)))))))))"

definition initializeSecureDesktop ::
  "answers \<Rightarrow> SecureDesktopHandler \<Rightarrow> ConnectionInfo option run" where
  "initializeSecureDesktop a s =
    (let r = log log_info (begin_run s);
         r = perform (OpenFileMapping IPC_FILENAME) r
     in
     (case OpenFileMapping_result a of None \<Rightarrow> returns None (log log_debug r)
     | Some mapFile' \<Rightarrow>
      (let r = perform (MapViewOfFile mapFile' (IPC_MAXLEN * sizeof_WCHAR)) r in
       (case MapViewOfFile_result a of
         None \<Rightarrow>
          (let r = log log_error r;
               r = perform (closeHandle mapFile') r;
               r = (if \<not> closeHandle_ok a mapFile' then log log_debugWarning r else r)
           in returns None r)
       | Some bufferAddress' \<Rightarrow>
          (let r = perform (WaitForSingleObject (ipcEventHandle s) 2000) r in
           (case WaitForSingleObject_result a of
             TIMEOUT \<Rightarrow> returns None (log log_error r)
           | FAILED \<Rightarrow> returns None (log log_error r)
           | UNKNOWN n \<Rightarrow> returns None (log log_error r)
           | OBJECT_0 \<Rightarrow>
              (let b = read_connection a bufferAddress' r;
                   r = (case outcome b of
                          Inr info \<Rightarrow> returns (Some info) b
                        | Inl e \<Rightarrow> returns None (log log_warning b));
                   r = perform (UnmapViewOfFile bufferAddress') r;
                   r = (if \<not> UnmapViewOfFile_ok a then log log_debugWarning r else r);
                   r = perform (closeHandle mapFile') r;
                   r = (if \<not> closeHandle_ok a mapFile' then log log_debugWarning r else r)
               in r)))))))"

subsection \<open>What the claims speak of\<close>

text \<open>The handshake payload, the relay server and the relay transport of an invocation of
  \<^verbatim>\<open>enterSecureDesktop\<close>, as the source builds them from the fresh token and the port.\<close>

definition payload :: "answers \<Rightarrow> string" where
  "payload a = json_dumps (getsockname_port a) (uuid4 a)"

definition new_server :: "answers \<Rightarrow> LocalRelayServer" where
  "new_server a = \<lparr>lsPort = 0, lsPassword = uuid4 a, lsBindHost = ''127.0.0.1''\<rparr>"

definition new_relay :: "answers \<Rightarrow> RelayTransport" where
  "new_relay a = \<lparr>rtAddress = (''127.0.0.1'', getsockname_port a), rtChannel = uuid4 a,
                 rtInsecure = True, rtConnectionType = LEADER\<rparr>"

text \<open>The payload is stored with its terminating null, and the last cell of the array is
  null afterwards: the test of \<^verbatim>\<open>buffer[-1]\<close> passes.\<close>

definition stored_terminated :: "answers \<Rightarrow> bool" where
  "stored_terminated a =
    (case set_value (buffer a) (payload a) of Inl e \<Rightarrow> False | Inr cells \<Rightarrow> last cells = NUL)"

text \<open>The run of \<^verbatim>\<open>initializeSecureDesktop\<close> when the wait on the event begins: the
  mapping \<open>m\<close> is open, the view is mapped, the wait has been issued.\<close>

definition waited :: "HANDLE \<Rightarrow> SecureDesktopHandler \<Rightarrow> unit run" where
  "waited m s = \<lparr>outcome = Inr (), after = s,
     ops = [OpenFileMapping IPC_FILENAME, MapViewOfFile m 128,
            WaitForSingleObject (ipcEventHandle s) 2000],
     logs = [log_info]\<rparr>"

text \<open>The calls on collaborators that \<^verbatim>\<open>leaveSecureDesktop\<close> has to make from a handler,
  in the order of the source: the two on the follower session are made only when a session
  with a transport is attached.\<close>

definition collaborator_calls :: "SecureDesktopHandler \<Rightarrow> op list" where
  "collaborator_calls s =
    (case sdBridge s of None \<Rightarrow> [] | Some b \<Rightarrow> [BridgeDisconnect b]) @
    (case sdServer s of None \<Rightarrow> [] | Some sv \<Rightarrow> [ServerClose sv]) @
    (case sdRelay s of None \<Rightarrow> [] | Some rl \<Rightarrow> [RelayClose rl]) @
    (case followerSession s of None \<Rightarrow> []
     | Some fs \<Rightarrow>
        (case transport fs of None \<Rightarrow> []
         | Some ft \<Rightarrow> [unregisterInbound ft SET_BRAILLE_INFO, setDisplaySize fs]))"

text \<open>The bundle: relay server, relay transport, bridge and the two fields of the mapping.\<close>

definition all_live :: "SecureDesktopHandler \<Rightarrow> bool" where
  "all_live s \<longleftrightarrow> sdServer s \<noteq> None \<and> sdRelay s \<noteq> None \<and> sdBridge s \<noteq> None
     \<and> mapFile s \<noteq> None \<and> bufferAddress s \<noteq> None"

definition all_none :: "SecureDesktopHandler \<Rightarrow> bool" where
  "all_none s \<longleftrightarrow> sdServer s = None \<and> sdRelay s = None \<and> sdBridge s = None
     \<and> mapFile s = None \<and> bufferAddress s = None"





subsection \<open>A concrete run\<close>

definition example_transport :: RelayTransport where
  "example_transport = \<lparr>rtAddress = (''nvdaremote.example'', 6837), rtChannel = ''key'',
     rtInsecure = False, rtConnectionType = FOLLOWER\<rparr>"

definition example_session :: FollowerSession where
  "example_session = \<lparr>sessionId = 1, transport = Some example_transport\<rparr>"


definition example_channel :: string where
  "example_channel = ''123e4567-e89b-42d3-a456-426614174000''"

definition example_answers :: answers where
  "example_answers = \<lparr>CreateEvent_result = Some 7, CreateFileMapping_result = Some 11,
     alreadyExists = False, OpenFileMapping_result = Some 11, MapViewOfFile_result = Some 4096,
     UnmapViewOfFile_ok = True, closeHandle_ok = (\<lambda>h. True), SetEvent_ok = True,
     ResetEvent_ok = True, WaitForSingleObject_result = OBJECT_0, viewCells = (\<lambda>i. NUL),
     uuid4 = example_channel, getsockname_port = 50123,
     json_loads = (\<lambda>t. Inr (JArr [JInt 50123, JStr example_channel])), socket_error = None,
     listeningSocketExists = (\<lambda>p. Inr True)\<rparr>"

text \<open>Answers under which every reported status is a failure.\<close>

definition failing_answers :: answers where
  "failing_answers = example_answers\<lparr>UnmapViewOfFile_ok := False, closeHandle_ok := (\<lambda>h. False),
     SetEvent_ok := False, ResetEvent_ok := False\<rparr>"

text \<open>Answers whose token makes the encoded payload exactly 64 characters long.\<close>

definition long_channel :: string where
  "long_channel = ''0123456789abcdef0123456789abcdef0123456789abcdef01234''"

definition long_answers :: answers where
  "long_answers = example_answers\<lparr>uuid4 := long_channel\<rparr>"


text \<open>Answers in which the wait on the event times out.\<close>

definition timeout_answers :: answers where
  "timeout_answers = example_answers\<lparr>WaitForSingleObject_result := TIMEOUT\<rparr>"

text \<open>No collaborator call raises; \<^verbatim>\<open>setDisplaySize\<close> of the example session raises.\<close>

definition none_raises :: "op \<Rightarrow> exn option" where
  "none_raises x = None"

definition display_raises :: "op \<Rightarrow> exn option" where
  "display_raises x = (if x = setDisplaySize example_session then Some RuntimeError else None)"

text \<open>A session whose transport is \<^verbatim>\<open>None\<close>.\<close>

definition detached_session :: FollowerSession where
  "detached_session = \<lparr>sessionId = 1, transport = None\<rparr>"

definition new_handler :: SecureDesktopHandler where
  "new_handler = \<lparr>mapFile = None, bufferAddress = None, ipcEventHandle = 7,
     followerSession = None, sdServer = None, sdRelay = None, sdBridge = None\<rparr>"

definition attached_handler :: SecureDesktopHandler where
  "attached_handler = after (set_followerSession example_answers new_handler (Some example_session))"

definition active_handler :: SecureDesktopHandler where
  "active_handler = after (enterSecureDesktop example_answers attached_handler)"

section \<open>The handler registry of the extension points\<close>

text \<open>
  \<^verbatim>\<open>source/extensionPoints/util.py\<close>: \<^verbatim>\<open>_getHandlerKey\<close>, the two kinds of weak reference
  and \<^verbatim>\<open>HandlerRegistrar\<close> with \<^verbatim>\<open>register\<close> and the generator \<^verbatim>\<open>handlers\<close>.
\<close>

subsection \<open>Objects, handlers, keys\<close>

text \<open>A Python object as far as this code looks at one: its identity (\<^verbatim>\<open>id\<close>) and its
  truth value (\<^verbatim>\<open>bool\<close>, which a class sets by \<^verbatim>\<open>__bool__\<close> or \<^verbatim>\<open>__len__\<close>).\<close>

record pyobject =
  ident :: nat
  truth :: bool

text \<open>A handler is a function or lambda, known by its identity and the names of its
  parameters, or a bound method, known by its instance (\<^verbatim>\<open>__self__\<close>) and the identity of
  its function (\<^verbatim>\<open>__func__\<close>); two bound methods are equal in Python exactly when both
  agree. Function objects and bound method objects are always true.\<close>

datatype handler = Function nat "string list" | BoundMethod pyobject nat

text \<open>\<^verbatim>\<open>HandlerKeyT = Union[int, Tuple[int, int]]\<close>.\<close>

datatype HandlerKeyT = IdKey nat | PairKey nat nat

text \<open>\<^verbatim>\<open>id(handler)\<close>: a function is an object of its own; a bound method object is made at
  each access of the attribute, and \<open>m\<close> is the identity of the one the caller holds.\<close>

definition py_id :: "nat \<Rightarrow> handler \<Rightarrow> nat" where
  "py_id m handler = (case handler of Function f ps \<Rightarrow> f | BoundMethod inst fn \<Rightarrow> m)"

text \<open>\<^verbatim>\<open>_getHandlerKey\<close>: a function has no \<^verbatim>\<open>__self__\<close>; for a bound method,
  \<^verbatim>\<open>if inst:\<close> tests the truth value of the instance.\<close>

definition getHandlerKey :: "nat \<Rightarrow> handler \<Rightarrow> HandlerKeyT" where
  "getHandlerKey m handler =
    (case handler of
       Function f ps \<Rightarrow> IdKey (py_id m handler)
     | BoundMethod inst fn \<Rightarrow>
        if truth inst then PairKey (ident inst) fn else IdKey (py_id m handler))"

subsection \<open>Weak references\<close>

text \<open>\<open>AnnotatableWeakref f ps hkey\<close> refers weakly to the function \<open>Function f ps\<close>;
  \<open>BoundMethodWeakref inst fn hkey\<close> refers weakly to the instance and to the function of a
  bound method. The last component is the attribute \<^verbatim>\<open>handlerKey\<close>.\<close>

datatype weakref =
    AnnotatableWeakref nat "string list" HandlerKeyT
  | BoundMethodWeakref pyobject nat HandlerKeyT

text \<open>Calling a weak reference, where \<open>alive\<close> tells which objects are alive, by identity.
  \<^verbatim>\<open>BoundMethodWeakref.__call__\<close> returns \<^verbatim>\<open>None\<close> when \<^verbatim>\<open>not inst\<close>, that is when the
  instance is dead or false, and asserts that the function is alive.\<close>

definition call_weak :: "(nat \<Rightarrow> bool) \<Rightarrow> weakref \<Rightarrow> exn + handler option" where
  "call_weak alive weak =
    (case weak of
       AnnotatableWeakref f ps hkey \<Rightarrow> Inr (if alive f then Some (Function f ps) else None)
     | BoundMethodWeakref inst fn hkey \<Rightarrow>
        if \<not> (alive (ident inst) \<and> truth inst) then Inr None
        else if \<not> alive fn then Inl AssertionError
        else Inr (Some (BoundMethod inst fn)))"

subsection \<open>\<^verbatim>\<open>HandlerRegistrar\<close>\<close>

text \<open>\<open>handlersDict\<close> is the ordered dictionary \<^verbatim>\<open>_handlers\<close>, as the list of its items in
  order.\<close>

record HandlerRegistrar =
  deprecationMessage :: "string option"
  handlersDict :: "(HandlerKeyT \<times> weakref) list"

definition new_registrar :: "string option \<Rightarrow> HandlerRegistrar" where
  "new_registrar message = \<lparr>deprecationMessage = message, handlersDict = []\<rparr>"

text \<open>\<^verbatim>\<open>d[hkey] = value\<close> on an ordered dictionary: a key that is present keeps its place
  and takes the new value, a new key goes to the end.\<close>

fun setitem :: "('k \<times> 'v) list \<Rightarrow> 'k \<Rightarrow> 'v \<Rightarrow> ('k \<times> 'v) list" where
  "setitem [] hkey v = [(hkey, v)]"
| "setitem ((k, w) # d) hkey v = (if k = hkey then (k, v) # d else (k, w) # setitem d hkey v)"

text \<open>\<^verbatim>\<open>register\<close>; \<open>allowDeprecatedAPI\<close> is the answer of
  \<^verbatim>\<open>NVDAState._allowDeprecatedAPI()\<close> and \<open>m\<close> the identity of the object passed.\<close>

definition register ::
  "bool \<Rightarrow> HandlerRegistrar \<Rightarrow> nat \<Rightarrow> handler \<Rightarrow> exn + HandlerRegistrar" where
  "register allowDeprecatedAPI r m handler =
    (if (case handler of Function f ps \<Rightarrow> ps \<noteq> [] \<and> hd ps = ''self''
         | BoundMethod inst fn \<Rightarrow> False)
     then Inl TypeError
     else if (case deprecationMessage r of None \<Rightarrow> False | Some message \<Rightarrow> message \<noteq> [])
             \<and> \<not> allowDeprecatedAPI
     then Inl RuntimeError
     else
      let hkey = getHandlerKey m handler;
          weak = (case handler of
                    BoundMethod inst fn \<Rightarrow> BoundMethodWeakref inst fn hkey
                  | Function f ps \<Rightarrow> AnnotatableWeakref f ps hkey)
      in Inr (r\<lparr>handlersDict := setitem (handlersDict r) hkey weak\<rparr>))"

text \<open>The generator \<^verbatim>\<open>handlers\<close>: the handlers it yields, in order, and the exception that
  ends the iteration if one is raised. A handler that is yielded is a function or a bound
  method object, so the test \<^verbatim>\<open>if not handler\<close> skips exactly the dead references.\<close>

fun handlers :: "(nat \<Rightarrow> bool) \<Rightarrow> (HandlerKeyT \<times> weakref) list \<Rightarrow> handler list \<times> exn option" where
  "handlers alive [] = ([], None)"
| "handlers alive ((k, weak) # d) =
    (case call_weak alive weak of
       Inl e \<Rightarrow> ([], Some e)
     | Inr None \<Rightarrow> handlers alive d
     | Inr (Some handler) \<Rightarrow> (handler # fst (handlers alive d), snd (handlers alive d)))"

text \<open>The handlers that \<^verbatim>\<open>handlers\<close> can yield: a function that is alive, a bound method
  whose instance is alive and true and whose function is alive.\<close>

definition yields :: "(nat \<Rightarrow> bool) \<Rightarrow> handler \<Rightarrow> bool" where
  "yields alive h =
    (case h of Function f ps \<Rightarrow> alive f
     | BoundMethod inst fn \<Rightarrow> alive (ident inst) \<and> truth inst \<and> alive fn)"

text \<open>Every item of the dictionary stands under the key of the handler that its weak
  reference gives back.\<close>

definition well_keyed :: "(nat \<Rightarrow> bool) \<Rightarrow> (HandlerKeyT \<times> weakref) list \<Rightarrow> bool" where
  "well_keyed alive d \<longleftrightarrow>
    (\<forall>(k, w) \<in> set d. \<forall>h. call_weak alive w = Inr (Some h) \<longrightarrow> getHandlerKey 0 h = k)"

text \<open>A registrar and a bound method of an instance that is alive and false.\<close>

definition empty_collection :: pyobject where
  "empty_collection = \<lparr>ident = 5, truth = False\<rparr>"

definition example_method :: handler where
  "example_method = BoundMethod empty_collection 9"

definition example_function :: handler where
  "example_function = Function 3 [''sender'']"

definition example_registrar :: HandlerRegistrar where
  "example_registrar =
     \<lparr>deprecationMessage = None,
      handlersDict = [(IdKey 3, AnnotatableWeakref 3 [''sender''] (IdKey 3))]\<rparr>"

section \<open>Properties\<close>

subsection \<open>Sequencing\<close>

lemma run_simps [simp]:
  "ops (perform x r) = ops r @ [x]" "after (perform x r) = after r"
  "outcome (perform x r) = outcome r" "logs (perform x r) = logs r"
  "ops (log l r) = ops r" "after (log l r) = after r"
  "outcome (log l r) = outcome r" "logs (log l r) = logs r @ [l]"
  "ops (assign f r) = ops r" "after (assign f r) = f (after r)"
  "outcome (assign f r) = outcome r" "logs (assign f r) = logs r"
  "ops (raises e q) = ops q" "after (raises e q) = after q"
  "outcome (raises e q) = Inl e" "logs (raises e q) = logs q"
  "ops (returns v q) = ops q" "after (returns v q) = after q"
  "outcome (returns v q) = Inr v" "logs (returns v q) = logs q"
  "ops (begin_run s) = []" "after (begin_run s) = s"
  "outcome (begin_run s) = Inr ()" "logs (begin_run s) = []"
  "ops (call g q) = ops q @ ops (g (after q))" "after (call g q) = after (g (after q))"
  "outcome (call g q) = outcome (g (after q))" "logs (call g q) = logs q @ logs (g (after q))"
  by (simp_all add: perform_def log_def assign_def raises_def returns_def begin_run_def
      call_def Let_def)

subsection \<open>\<^verbatim>\<open>leaveSecureDesktop\<close>, path by path\<close>


lemma leave_after:
  "after (leaveSecureDesktop a s) =
   (if sdServer s = None then s
    else s\<lparr>mapFile := None, bufferAddress := None, sdServer := None, sdRelay := None,
           sdBridge := None\<rparr>)"
  by (cases "sdBridge s"; cases "sdServer s"; cases "sdRelay s"; cases "bufferAddress s";
      cases "mapFile s"; cases "followerSession s"; cases "transport (the (followerSession s))")
     (simp_all add: leaveSecureDesktop_def Let_def cong: let_weak_cong)

lemma leave_outcome: "outcome (leaveSecureDesktop a s) = Inr ()"
  by (cases "sdBridge s"; cases "sdServer s"; cases "sdRelay s"; cases "bufferAddress s";
      cases "mapFile s"; cases "followerSession s"; cases "transport (the (followerSession s))")
     (simp_all add: leaveSecureDesktop_def Let_def cong: let_weak_cong)

lemma leave_ops:
  "ops (leaveSecureDesktop a s) =
   (if sdServer s = None then []
    else
     (case sdBridge s of None \<Rightarrow> [] | Some b \<Rightarrow> [BridgeDisconnect b]) @
     (case sdServer s of None \<Rightarrow> [] | Some sv \<Rightarrow> [ServerClose sv]) @
     (case sdRelay s of None \<Rightarrow> [] | Some rl \<Rightarrow> [RelayClose rl]) @
     (case followerSession s of None \<Rightarrow> []
      | Some fs \<Rightarrow>
         (case transport fs of None \<Rightarrow> []
          | Some ft \<Rightarrow> [unregisterInbound ft SET_BRAILLE_INFO, setDisplaySize fs])) @
     [ResetEvent (ipcEventHandle s)] @
     (case bufferAddress s of None \<Rightarrow> [] | Some b \<Rightarrow> [UnmapViewOfFile b]) @
     (case mapFile s of None \<Rightarrow> [] | Some m \<Rightarrow> [closeHandle m]))"
  by (cases "sdBridge s"; cases "sdServer s"; cases "sdRelay s"; cases "bufferAddress s";
      cases "mapFile s"; cases "followerSession s"; cases "transport (the (followerSession s))")
     (simp_all add: leaveSecureDesktop_def Let_def cong: let_weak_cong)




subsection \<open>The buffer and the payload\<close>

lemma length_buffer [simp]: "length (buffer a) = 64"
  by (simp add: buffer_def IPC_MAXLEN_def)

lemma last_json_dumps [simp]: "last (json_dumps p c) = CHR '']''"
  by (simp add: json_dumps_def)

lemma set_value_cases:
  "set_value (buffer a) v =
    (if 64 < length v then Inl ValueError
     else if length v < 64 then Inr (v @ [NUL] @ drop (length v + 1) (buffer a))
     else Inr v)"
  by (simp add: set_value_def)

lemma last_buffer: "last (buffer a) = viewCells a 63"
  by (simp add: buffer_def IPC_MAXLEN_def last_map)

lemma stored_terminated_iff:
  "stored_terminated a \<longleftrightarrow>
     length (payload a) < 64 \<and> (length (payload a) < 63 \<longrightarrow> viewCells a 63 = NUL)"
proof (cases "length (payload a) < 63")
  case True
  then have "drop (length (payload a) + 1) (buffer a) \<noteq> []" by simp
  then have "last (payload a @ [NUL] @ drop (length (payload a) + 1) (buffer a)) = viewCells a 63"
    by (simp add: last_buffer [symmetric])
  with True show ?thesis by (simp add: stored_terminated_def set_value_cases)
next
  case False
  then show ?thesis
    by (auto simp add: stored_terminated_def set_value_cases payload_def NUL_def)
qed

lemma example_payload:
  "payload example_answers = ''[50123, \"123e4567-e89b-42d3-a456-426614174000\"]''"
  by (simp add: payload_def example_answers_def example_channel_def json_dumps_def str_int_def
      str_nat.simps digit_char_def encode_string_def escape_char_def)

lemma long_payload: "length (payload long_answers) = 64"
  by (simp add: payload_def long_answers_def example_answers_def long_channel_def json_dumps_def
      str_int_def str_nat.simps digit_char_def encode_string_def escape_char_def)


lemma terminated_store:
  assumes "set_value (buffer a) (payload a) = Inr cells" and "last cells = NUL"
  shows "length (payload a) < 64 \<and> take (length (payload a) + 1) cells = payload a @ [NUL]"
proof -
  have "\<not> 64 < length (payload a)"
    using assms(1) by (simp add: set_value_cases split: if_splits)
  moreover have "length (payload a) \<noteq> 64"
  proof
    assume "length (payload a) = 64"
    with assms(1) have "cells = payload a" by (simp add: set_value_cases)
    with assms(2) show False by (simp add: payload_def NUL_def)
  qed
  ultimately have short: "length (payload a) < 64" by simp
  with assms(1) have "cells = payload a @ [NUL] @ drop (length (payload a) + 1) (buffer a)"
    by (simp add: set_value_cases)
  with short show ?thesis by simp
qed

subsection \<open>\<^verbatim>\<open>enterSecureDesktop\<close>, path by path\<close>

lemma enter_no_session:
  "followerSession s = None \<Longrightarrow>
   ops (enterSecureDesktop a s) = [] \<and> after (enterSecureDesktop a s) = s
   \<and> outcome (enterSecureDesktop a s) = Inr ()"
  by (simp add: enterSecureDesktop_def Let_def cong: let_weak_cong)

lemma enter_no_transport:
  "followerSession s = Some fs \<Longrightarrow> transport fs = None \<Longrightarrow>
   ops (enterSecureDesktop a s) = [] \<and> after (enterSecureDesktop a s) = s
   \<and> outcome (enterSecureDesktop a s) = Inr ()"
  by (simp add: enterSecureDesktop_def Let_def cong: let_weak_cong)

lemma enter_no_mapping:
  "followerSession s = Some fs \<Longrightarrow> transport fs = Some ft \<Longrightarrow>
   CreateFileMapping_result a = None \<Longrightarrow>
   ops (enterSecureDesktop a s) = [CreateFileMapping 128 IPC_FILENAME]
   \<and> after (enterSecureDesktop a s) = s \<and> outcome (enterSecureDesktop a s) = Inr ()"
  by (simp add: enterSecureDesktop_def Let_def IPC_MAXLEN_def sizeof_WCHAR_def
      cong: let_weak_cong)

lemma enter_no_view:
  "followerSession s = Some fs \<Longrightarrow> transport fs = Some ft \<Longrightarrow>
   CreateFileMapping_result a = Some m \<Longrightarrow> MapViewOfFile_result a = None \<Longrightarrow>
   ops (enterSecureDesktop a s) =
     [CreateFileMapping 128 IPC_FILENAME, MapViewOfFile m 128, closeHandle m]
   \<and> after (enterSecureDesktop a s) = s \<and> outcome (enterSecureDesktop a s) = Inr ()"
  by (simp add: enterSecureDesktop_def Let_def IPC_MAXLEN_def sizeof_WCHAR_def
      cong: let_weak_cong)

lemma enter_too_long:
  "followerSession s = Some fs \<Longrightarrow> transport fs = Some ft \<Longrightarrow>
   CreateFileMapping_result a = Some m \<Longrightarrow> MapViewOfFile_result a = Some b \<Longrightarrow>
   64 < length (payload a) \<Longrightarrow>
   ops (enterSecureDesktop a s) =
     [CreateFileMapping 128 IPC_FILENAME, MapViewOfFile m 128, ServerNew (new_server a),
      UnmapViewOfFile b, closeHandle m, ServerClose (new_server a)]
   \<and> after (enterSecureDesktop a s) = s\<lparr>sdServer := None\<rparr>
   \<and> outcome (enterSecureDesktop a s) = Inr ()"
  by (simp add: enterSecureDesktop_def write_ipc_def set_value_cases payload_def new_server_def
      Let_def IPC_MAXLEN_def sizeof_WCHAR_def cong: let_weak_cong)

lemma enter_no_terminator:
  "followerSession s = Some fs \<Longrightarrow> transport fs = Some ft \<Longrightarrow>
   CreateFileMapping_result a = Some m \<Longrightarrow> MapViewOfFile_result a = Some b \<Longrightarrow>
   set_value (buffer a) (payload a) = Inr cells \<Longrightarrow> last cells \<noteq> NUL \<Longrightarrow>
   ops (enterSecureDesktop a s) =
     [CreateFileMapping 128 IPC_FILENAME, MapViewOfFile m 128, ServerNew (new_server a),
      BufferStore b cells, UnmapViewOfFile b, closeHandle m, ServerClose (new_server a)]
   \<and> after (enterSecureDesktop a s) = s\<lparr>sdServer := None\<rparr>
   \<and> outcome (enterSecureDesktop a s) = Inr ()"
  by (simp add: enterSecureDesktop_def write_ipc_def payload_def new_server_def Let_def
      IPC_MAXLEN_def sizeof_WCHAR_def cong: let_weak_cong)

lemma enter_success:
  "followerSession s = Some fs \<Longrightarrow> transport fs = Some ft \<Longrightarrow>
   CreateFileMapping_result a = Some m \<Longrightarrow> MapViewOfFile_result a = Some b \<Longrightarrow>
   set_value (buffer a) (payload a) = Inr cells \<Longrightarrow> last cells = NUL \<Longrightarrow>
   ops (enterSecureDesktop a s) =
     [CreateFileMapping 128 IPC_FILENAME, MapViewOfFile m 128, ServerNew (new_server a),
      BufferStore b cells, ServerRunThread (new_server a), RelayNew (new_relay a),
      registerInbound (new_relay a) CLIENT_JOINED, registerInbound ft SET_BRAILLE_INFO,
      BridgeNew \<lparr>t1 = ft, t2 = new_relay a\<rparr>, RelayRunThread (new_relay a)]
     @ [SetEvent (ipcEventHandle s)]
   \<and> after (enterSecureDesktop a s) =
       s\<lparr>sdServer := Some (new_server a), sdRelay := Some (new_relay a),
         sdBridge := Some \<lparr>t1 = ft, t2 = new_relay a\<rparr>, mapFile := Some m,
         bufferAddress := Some b\<rparr>
   \<and> outcome (enterSecureDesktop a s) = Inr ()"
  by (simp add: enterSecureDesktop_def write_ipc_def payload_def new_server_def new_relay_def
      Let_def IPC_MAXLEN_def sizeof_WCHAR_def cong: let_weak_cong)

text \<open>The seven ways through \<^verbatim>\<open>enterSecureDesktop\<close>.\<close>

lemma enter_paths:
  obtains
    (no_session) "followerSession s = None"
  | (no_transport) fs where "followerSession s = Some fs" "transport fs = None"
  | (no_mapping) fs ft where "followerSession s = Some fs" "transport fs = Some ft"
      "CreateFileMapping_result a = None"
  | (no_view) fs ft m where "followerSession s = Some fs" "transport fs = Some ft"
      "CreateFileMapping_result a = Some m" "MapViewOfFile_result a = None"
  | (too_long) fs ft m b where "followerSession s = Some fs" "transport fs = Some ft"
      "CreateFileMapping_result a = Some m" "MapViewOfFile_result a = Some b"
      "64 < length (payload a)"
  | (no_terminator) fs ft m b cells where "followerSession s = Some fs"
      "transport fs = Some ft" "CreateFileMapping_result a = Some m"
      "MapViewOfFile_result a = Some b" "set_value (buffer a) (payload a) = Inr cells"
      "last cells \<noteq> NUL"
  | (success) fs ft m b cells where "followerSession s = Some fs"
      "transport fs = Some ft" "CreateFileMapping_result a = Some m"
      "MapViewOfFile_result a = Some b" "set_value (buffer a) (payload a) = Inr cells"
      "last cells = NUL"
proof (cases "followerSession s")
  case None
  then show ?thesis by (rule no_session)
next
  case (Some fs)
  note fs = this
  show ?thesis
  proof (cases "transport fs")
    case None
    with fs show ?thesis by (rule no_transport)
  next
    case (Some ft)
    note ft = this
    show ?thesis
    proof (cases "CreateFileMapping_result a")
      case None
      with fs ft show ?thesis by (rule no_mapping)
    next
      case (Some m)
      note m = this
      show ?thesis
      proof (cases "MapViewOfFile_result a")
        case None
        with fs ft m show ?thesis by (rule no_view)
      next
        case (Some b)
        note b = this
        show ?thesis
        proof (cases "64 < length (payload a)")
          case True
          with fs ft m b show ?thesis by (rule too_long)
        next
          case False
          then obtain cells where c: "set_value (buffer a) (payload a) = Inr cells"
            by (cases "length (payload a) < 64") (simp_all add: set_value_cases)
          show ?thesis
          proof (cases "last cells = NUL")
            case True
            with fs ft m b c show ?thesis by (rule success)
          next
            case False
            with fs ft m b c show ?thesis by (rule no_terminator)
          qed
        qed
      qed
    qed
  qed
qed

lemma split_before_last:
  assumes "xs @ [y] = pre @ z # post" and "z \<notin> set xs"
  shows "pre = xs \<and> z = y \<and> post = []"
proof (cases post rule: rev_cases)
  case Nil
  with assms(1) show ?thesis by simp
next
  case (snoc ps p)
  with assms(1) have "xs @ [y] = (pre @ z # ps) @ [p]" by simp
  then have "xs = pre @ z # ps" by (simp only: append1_eq_conv)
  with assms(2) show ?thesis by simp
qed

text \<open>
  \<^bold>\<open>C2.\<close> In every execution of \<^verbatim>\<open>enterSecureDesktop\<close>, whatever the environment answers:
  if \<^verbatim>\<open>SetEvent\<close> is performed at all, it is performed on the handler's event, as the last
  operation, and the operations before it include a store that leaves the payload followed by
  its terminating null at the start of the shared buffer, the construction of the relay
  server, of the relay transport and of the bridge. With no follower session, with a session
  that has no transport, when the file mapping or the view fails, or with a payload of 64
  characters or more, \<^verbatim>\<open>SetEvent\<close> is not performed.
\<close>

theorem enter_signals_after_publication:
  "(\<forall>h pre post. ops (enterSecureDesktop a s) = pre @ SetEvent h # post \<longrightarrow>
      h = ipcEventHandle s \<and> post = []
      \<and> (\<exists>b cells. BufferStore b cells \<in> set pre
            \<and> take (length (payload a) + 1) cells = payload a @ [NUL])
      \<and> ServerNew (new_server a) \<in> set pre \<and> RelayNew (new_relay a) \<in> set pre
      \<and> (\<exists>ft. BridgeNew \<lparr>t1 = ft, t2 = new_relay a\<rparr> \<in> set pre))
   \<and> (followerSession s = None \<or> (\<exists>fs. followerSession s = Some fs \<and> transport fs = None)
        \<or> CreateFileMapping_result a = None \<or> MapViewOfFile_result a = None
        \<or> 64 \<le> length (payload a)
       \<longrightarrow> (\<forall>h. SetEvent h \<notin> set (ops (enterSecureDesktop a s))))"
proof (cases rule: enter_paths [where s = s and a = a])
  case no_session
  from enter_no_session [OF this, of a] show ?thesis by simp
next
  case (no_transport fs)
  from enter_no_transport [OF this, of a] show ?thesis by simp
next
  case (no_mapping fs ft)
  from enter_no_mapping [OF this] have "\<And>h. SetEvent h \<notin> set (ops (enterSecureDesktop a s))"
    by simp
  then show ?thesis by (metis in_set_conv_decomp)
next
  case (no_view fs ft m)
  from enter_no_view [OF this] have "\<And>h. SetEvent h \<notin> set (ops (enterSecureDesktop a s))"
    by simp
  then show ?thesis by (metis in_set_conv_decomp)
next
  case (too_long fs ft m b)
  from enter_too_long [OF this] have "\<And>h. SetEvent h \<notin> set (ops (enterSecureDesktop a s))"
    by simp
  then show ?thesis by (metis in_set_conv_decomp)
next
  case (no_terminator fs ft m b cells)
  from enter_no_terminator [OF this]
  have "\<And>h. SetEvent h \<notin> set (ops (enterSecureDesktop a s))"
    by simp
  then show ?thesis by (metis in_set_conv_decomp)
next
  case (success fs ft m b cells)
  note path = enter_success [OF this]
  note stored = terminated_store [OF success(5,6)]
  have first: "\<forall>h pre post. ops (enterSecureDesktop a s) = pre @ SetEvent h # post \<longrightarrow>
      h = ipcEventHandle s \<and> post = []
      \<and> (\<exists>b cells. BufferStore b cells \<in> set pre
            \<and> take (length (payload a) + 1) cells = payload a @ [NUL])
      \<and> ServerNew (new_server a) \<in> set pre \<and> RelayNew (new_relay a) \<in> set pre
      \<and> (\<exists>ft. BridgeNew \<lparr>t1 = ft, t2 = new_relay a\<rparr> \<in> set pre)"
  proof (intro allI impI)
    fix h pre post
    assume "ops (enterSecureDesktop a s) = pre @ SetEvent h # post"
    with path have eq: "[CreateFileMapping 128 IPC_FILENAME, MapViewOfFile m 128, ServerNew (new_server a),
      BufferStore b cells, ServerRunThread (new_server a), RelayNew (new_relay a),
      registerInbound (new_relay a) CLIENT_JOINED, registerInbound ft SET_BRAILLE_INFO,
      BridgeNew \<lparr>t1 = ft, t2 = new_relay a\<rparr>, RelayRunThread (new_relay a)]
     @ [SetEvent (ipcEventHandle s)] = pre @ SetEvent h # post" by simp
    from split_before_last [OF eq] have "pre = [CreateFileMapping 128 IPC_FILENAME, MapViewOfFile m 128, ServerNew (new_server a),
      BufferStore b cells, ServerRunThread (new_server a), RelayNew (new_relay a),
      registerInbound (new_relay a) CLIENT_JOINED, registerInbound ft SET_BRAILLE_INFO,
      BridgeNew \<lparr>t1 = ft, t2 = new_relay a\<rparr>, RelayRunThread (new_relay a)]"
      and "SetEvent h = SetEvent (ipcEventHandle s)" and "post = []" by simp_all
    with stored show "h = ipcEventHandle s \<and> post = []
      \<and> (\<exists>b cells. BufferStore b cells \<in> set pre
            \<and> take (length (payload a) + 1) cells = payload a @ [NUL])
      \<and> ServerNew (new_server a) \<in> set pre \<and> RelayNew (new_relay a) \<in> set pre
      \<and> (\<exists>ft. BridgeNew \<lparr>t1 = ft, t2 = new_relay a\<rparr> \<in> set pre)"
      by auto
  qed
  from success stored have "\<not> (followerSession s = None \<or> (\<exists>fs. followerSession s = Some fs \<and> transport fs = None)
        \<or> CreateFileMapping_result a = None \<or> MapViewOfFile_result a = None
        \<or> 64 \<le> length (payload a))" by simp
  with first show ?thesis by blast
qed

subsection \<open>The setter, path by path\<close>


lemma leave_keeps_session [simp]:
  "followerSession (after (leaveSecureDesktop a s)) = followerSession s"
  by (simp add: leave_after)

lemma set_other_after:
  "followerSession s \<noteq> session \<Longrightarrow>
   after (set_followerSession a s session) =
     (if sdServer s \<noteq> None then after (leaveSecureDesktop a s) else s)\<lparr>followerSession := session\<rparr>"
  by (cases "followerSession s"; cases "transport (the (followerSession s))";
      cases session; cases "transport (the session)"; cases "sdServer s")
     (simp_all add: set_followerSession_def Let_def cong: let_weak_cong)


lemma set_other_outcome:
  "followerSession s \<noteq> session \<Longrightarrow>
   outcome (set_followerSession a s session) =
     (case session of None \<Rightarrow> Inr ()
      | Some new \<Rightarrow> (case transport new of None \<Rightarrow> Inl AttributeError | Some t \<Rightarrow> Inr ()))"
  by (cases "followerSession s"; cases "transport (the (followerSession s))";
      cases session; cases "transport (the session)"; cases "sdServer s")
     (simp_all add: set_followerSession_def Let_def leave_outcome cong: let_weak_cong)



subsection \<open>The concrete run, evaluated\<close>


lemma attached_handler_eq:
  "attached_handler = new_handler\<lparr>followerSession := Some example_session\<rparr>"
  unfolding attached_handler_def
  by (subst set_other_after) (simp_all add: new_handler_def)

lemma example_stored:
  "stored_terminated example_answers"
  by (simp add: stored_terminated_iff example_payload) (simp add: example_answers_def)

lemma enter_example:
  "ops (enterSecureDesktop example_answers attached_handler) =
     butlast (ops (enterSecureDesktop example_answers attached_handler)) @ SetEvent 7 # []
   \<and> after (enterSecureDesktop example_answers attached_handler) =
       attached_handler\<lparr>sdServer := Some (new_server example_answers),
         sdRelay := Some (new_relay example_answers),
         sdBridge := Some \<lparr>t1 = example_transport, t2 = new_relay example_answers\<rparr>,
         mapFile := Some 11, bufferAddress := Some 4096\<rparr>"
proof -
  obtain cells where c: "set_value (buffer example_answers) (payload example_answers) = Inr cells"
    "last cells = NUL"
    using example_stored by (auto simp add: stored_terminated_def split: sum.splits)
  have "followerSession attached_handler = Some example_session"
    "transport example_session = Some example_transport"
    "CreateFileMapping_result example_answers = Some 11"
    "MapViewOfFile_result example_answers = Some 4096"
    "ipcEventHandle attached_handler = 7"
    by (simp_all add: attached_handler_eq example_session_def example_answers_def new_handler_def)
  from enter_success [OF this(1-4) c] this(5) show ?thesis by simp
qed

lemma active_handler_eq:
  "active_handler =
     \<lparr>mapFile = Some 11, bufferAddress = Some 4096, ipcEventHandle = 7,
      followerSession = Some example_session, sdServer = Some (new_server example_answers),
      sdRelay = Some (new_relay example_answers),
      sdBridge = Some \<lparr>t1 = example_transport, t2 = new_relay example_answers\<rparr>\<rparr>"
  unfolding active_handler_def
  by (simp add: enter_example) (simp add: attached_handler_eq new_handler_def)

theorem enter_signals_after_publication_witness:
  "ops (enterSecureDesktop example_answers attached_handler) =
     butlast (ops (enterSecureDesktop example_answers attached_handler)) @ SetEvent 7 # []
   \<and> ServerNew (new_server example_answers)
       \<in> set (butlast (ops (enterSecureDesktop example_answers attached_handler)))
   \<and> 64 \<le> length (payload long_answers)
   \<and> SetEvent 7 \<notin> set (ops (enterSecureDesktop long_answers attached_handler))"
proof -
  have signalled: "ops (enterSecureDesktop example_answers attached_handler) =
     butlast (ops (enterSecureDesktop example_answers attached_handler)) @ SetEvent 7 # []"
    using enter_example by simp
  have long: "64 \<le> length (payload long_answers)"
    by (simp add: long_payload)
  from enter_signals_after_publication [of example_answers attached_handler] signalled
  have "ServerNew (new_server example_answers)
       \<in> set (butlast (ops (enterSecureDesktop example_answers attached_handler)))"
    by blast
  moreover from enter_signals_after_publication [of long_answers attached_handler] long
  have "SetEvent 7 \<notin> set (ops (enterSecureDesktop long_answers attached_handler))"
    by blast
  ultimately show ?thesis using signalled long by blast
qed


subsection \<open>Handlers that call sequences can leave\<close>




subsection \<open>The order of \<^verbatim>\<open>leaveSecureDesktop\<close>\<close>

lemma invoke_simps [simp]:
  "ops (invoke raising x r) = ops r @ [x]" "after (invoke raising x r) = after r"
  "logs (invoke raising x r) = logs r"
  "outcome (invoke raising x r) = (case raising x of None \<Rightarrow> outcome r | Some e \<Rightarrow> Inl e)"
  by (simp_all add: invoke_def split: option.splits)

lemma and_then_Inr: "outcome r = Inr u \<Longrightarrow> and_then r f = f r"
  by (simp add: and_then_def)

lemma and_then_Inl: "outcome r = Inl e \<Longrightarrow> and_then r f = r"
  by (simp add: and_then_def)


lemma and_then_weak_cong: "r = r' \<Longrightarrow> and_then r f = and_then r' f"
  by simp

lemma leave_raising_none:
  "leaveSecureDesktop_raising (\<lambda>x. None) a s = leaveSecureDesktop a s"
  by (cases "sdBridge s"; cases "sdServer s"; cases "sdRelay s"; cases "bufferAddress s";
      cases "mapFile s"; cases "followerSession s"; cases "transport (the (followerSession s))")
     (simp_all add: leaveSecureDesktop_raising_def leaveSecureDesktop_def and_then_Inr
       invoke_def Let_def cong: let_weak_cong and_then_weak_cong)

lemma leave_raising_run:
  assumes "sdBridge s = Some br" "sdServer s = Some sv" "sdRelay s = Some rl"
    "bufferAddress s = Some b" "mapFile s = Some m"
  shows "ops (leaveSecureDesktop_raising raising a s) =
      takeWhile (\<lambda>y. raising y = None) (collaborator_calls s) @
      (case dropWhile (\<lambda>y. raising y = None) (collaborator_calls s) of
         [] \<Rightarrow> [ResetEvent (ipcEventHandle s), UnmapViewOfFile b, closeHandle m]
       | x # rest \<Rightarrow> [x])"
    and "outcome (leaveSecureDesktop_raising raising a s) =
      (case dropWhile (\<lambda>y. raising y = None) (collaborator_calls s) of
         [] \<Rightarrow> Inr ()
       | x # rest \<Rightarrow> (case raising x of None \<Rightarrow> Inr () | Some e \<Rightarrow> Inl e))"
    and "mapFile (after (leaveSecureDesktop_raising raising a s)) =
      (case dropWhile (\<lambda>y. raising y = None) (collaborator_calls s) of
         [] \<Rightarrow> None | x # rest \<Rightarrow> Some m)"
    and "bufferAddress (after (leaveSecureDesktop_raising raising a s)) =
      (case dropWhile (\<lambda>y. raising y = None) (collaborator_calls s) of
         [] \<Rightarrow> None | x # rest \<Rightarrow> Some b)"
    and "dropWhile (\<lambda>y. raising y = None) (collaborator_calls s) = [] \<Longrightarrow>
      all_none (after (leaveSecureDesktop_raising raising a s))"
  using assms
  by (cases "followerSession s"; cases "transport (the (followerSession s))";
      cases "raising (BridgeDisconnect br)"; cases "raising (ServerClose sv)";
      cases "raising (RelayClose rl)";
      cases "raising (unregisterInbound (the (transport (the (followerSession s)))) SET_BRAILLE_INFO)";
      cases "raising (setDisplaySize (the (followerSession s)))";
      simp add: leaveSecureDesktop_raising_def collaborator_calls_def all_none_def and_then_Inr
        and_then_Inl Let_def cong: let_weak_cong and_then_weak_cong)+


text \<open>
  \<^bold>\<open>C8\<close> (as amended). When the bundle is held (\<^verbatim>\<open>sdServer\<close>, \<^verbatim>\<open>sdRelay\<close>, \<^verbatim>\<open>sdBridge\<close>,
  \<^verbatim>\<open>_mapFile\<close> and \<^verbatim>\<open>_bufferAddress\<close> all set), \<^verbatim>\<open>leaveSecureDesktop\<close> makes its calls on
  collaborators in this order: disconnect the bridge, close the relay server, close the relay
  transport and, only when a follower session with a transport is attached, unregister the
  \<^verbatim>\<open>SET_BRAILLE_INFO\<close> handler from that transport and call \<^verbatim>\<open>setDisplaySize\<close> on the
  session. When none of these calls raises, it then resets the event, unmaps the view and
  closes the mapping handle, in this order and last, returns, and leaves the five fields
  \<^verbatim>\<open>None\<close>; this holds for all answers \<open>a\<close> of the environment, so a failure reported by
  \<^verbatim>\<open>ResetEvent\<close>, \<^verbatim>\<open>UnmapViewOfFile\<close> or \<^verbatim>\<open>closeHandle\<close> skips no step. When one of the
  calls on a collaborator raises, the exception is not caught: it escapes to the caller, the
  call that raised is the last operation performed, and the view stays mapped and the
  mapping handle open.
\<close>

theorem leave_order:
  "all_live s \<Longrightarrow>
   \<exists>br sv rl b m.
     sdBridge s = Some br \<and> sdServer s = Some sv \<and> sdRelay s = Some rl
     \<and> bufferAddress s = Some b \<and> mapFile s = Some m
     \<and> collaborator_calls s =
         [BridgeDisconnect br, ServerClose sv, RelayClose rl] @
         (case followerSession s of None \<Rightarrow> []
          | Some fs \<Rightarrow>
             (case transport fs of None \<Rightarrow> []
              | Some ft \<Rightarrow> [unregisterInbound ft SET_BRAILLE_INFO, setDisplaySize fs]))
     \<and> ((\<forall>x \<in> set (collaborator_calls s). raising x = None) \<longrightarrow>
          ops (leaveSecureDesktop_raising raising a s) =
            collaborator_calls s
            @ [ResetEvent (ipcEventHandle s), UnmapViewOfFile b, closeHandle m]
          \<and> outcome (leaveSecureDesktop_raising raising a s) = Inr ()
          \<and> all_none (after (leaveSecureDesktop_raising raising a s)))
     \<and> (\<forall>x rest. dropWhile (\<lambda>y. raising y = None) (collaborator_calls s) = x # rest \<longrightarrow>
          (\<exists>e. raising x = Some e \<and> outcome (leaveSecureDesktop_raising raising a s) = Inl e)
          \<and> ops (leaveSecureDesktop_raising raising a s) =
              takeWhile (\<lambda>y. raising y = None) (collaborator_calls s) @ [x]
          \<and> bufferAddress (after (leaveSecureDesktop_raising raising a s)) = Some b
          \<and> mapFile (after (leaveSecureDesktop_raising raising a s)) = Some m)
     \<and> leaveSecureDesktop_raising (\<lambda>x. None) a s = leaveSecureDesktop a s"
proof -
  assume "all_live s"
  then obtain br sv rl b m where f: "sdBridge s = Some br" "sdServer s = Some sv"
    "sdRelay s = Some rl" "bufferAddress s = Some b" "mapFile s = Some m"
    by (auto simp add: all_live_def)
  note run = leave_raising_run [OF f, of raising a]
  have calls: "collaborator_calls s =
         [BridgeDisconnect br, ServerClose sv, RelayClose rl] @
         (case followerSession s of None \<Rightarrow> []
          | Some fs \<Rightarrow>
             (case transport fs of None \<Rightarrow> []
              | Some ft \<Rightarrow> [unregisterInbound ft SET_BRAILLE_INFO, setDisplaySize fs]))"
    using f by (simp add: collaborator_calls_def)
  have quiet: "(\<forall>x \<in> set (collaborator_calls s). raising x = None) \<longrightarrow>
          ops (leaveSecureDesktop_raising raising a s) =
            collaborator_calls s
            @ [ResetEvent (ipcEventHandle s), UnmapViewOfFile b, closeHandle m]
          \<and> outcome (leaveSecureDesktop_raising raising a s) = Inr ()
          \<and> all_none (after (leaveSecureDesktop_raising raising a s))"
  proof
    assume q: "\<forall>x \<in> set (collaborator_calls s). raising x = None"
    then have t: "takeWhile (\<lambda>y. raising y = None) (collaborator_calls s) = collaborator_calls s"
      by (simp add: takeWhile_eq_all_conv)
    from q have d: "dropWhile (\<lambda>y. raising y = None) (collaborator_calls s) = []"
      by simp
    from run(1,2) run(5) [OF d] t d
    show "ops (leaveSecureDesktop_raising raising a s) =
            collaborator_calls s
            @ [ResetEvent (ipcEventHandle s), UnmapViewOfFile b, closeHandle m]
          \<and> outcome (leaveSecureDesktop_raising raising a s) = Inr ()
          \<and> all_none (after (leaveSecureDesktop_raising raising a s))"
      by simp
  qed
  have loud: "\<forall>x rest. dropWhile (\<lambda>y. raising y = None) (collaborator_calls s) = x # rest \<longrightarrow>
          (\<exists>e. raising x = Some e \<and> outcome (leaveSecureDesktop_raising raising a s) = Inl e)
          \<and> ops (leaveSecureDesktop_raising raising a s) =
              takeWhile (\<lambda>y. raising y = None) (collaborator_calls s) @ [x]
          \<and> bufferAddress (after (leaveSecureDesktop_raising raising a s)) = Some b
          \<and> mapFile (after (leaveSecureDesktop_raising raising a s)) = Some m"
  proof (intro allI impI)
    fix x rest
    assume d: "dropWhile (\<lambda>y. raising y = None) (collaborator_calls s) = x # rest"
    then have "raising x \<noteq> None"
      using hd_dropWhile [of "\<lambda>y. raising y = None" "collaborator_calls s"] by auto
    then obtain e where e: "raising x = Some e" by auto
    from run(1-4) d e
    show "(\<exists>e. raising x = Some e \<and> outcome (leaveSecureDesktop_raising raising a s) = Inl e)
          \<and> ops (leaveSecureDesktop_raising raising a s) =
              takeWhile (\<lambda>y. raising y = None) (collaborator_calls s) @ [x]
          \<and> bufferAddress (after (leaveSecureDesktop_raising raising a s)) = Some b
          \<and> mapFile (after (leaveSecureDesktop_raising raising a s)) = Some m"
      by simp
  qed
  from f calls quiet loud leave_raising_none [of a s] show ?thesis by blast
qed

lemma active_calls:
  "collaborator_calls active_handler =
     [BridgeDisconnect \<lparr>t1 = example_transport, t2 = new_relay example_answers\<rparr>,
      ServerClose (new_server example_answers), RelayClose (new_relay example_answers),
      unregisterInbound example_transport SET_BRAILLE_INFO, setDisplaySize example_session]"
  by (simp add: collaborator_calls_def active_handler_eq example_session_def)

lemma display_raises_drop:
  "dropWhile (\<lambda>y. display_raises y = None) (collaborator_calls active_handler) =
     [setDisplaySize example_session]"
  "takeWhile (\<lambda>y. display_raises y = None) (collaborator_calls active_handler) =
     [BridgeDisconnect \<lparr>t1 = example_transport, t2 = new_relay example_answers\<rparr>,
      ServerClose (new_server example_answers), RelayClose (new_relay example_answers),
      unregisterInbound example_transport SET_BRAILLE_INFO]"
  by (simp_all add: active_calls display_raises_def)

theorem leave_order_witness:
  "all_live active_handler
   \<and> none_raises (setDisplaySize example_session) = None
   \<and> ops (leaveSecureDesktop_raising none_raises failing_answers active_handler) =
       [BridgeDisconnect \<lparr>t1 = example_transport, t2 = new_relay example_answers\<rparr>,
        ServerClose (new_server example_answers), RelayClose (new_relay example_answers),
        unregisterInbound example_transport SET_BRAILLE_INFO, setDisplaySize example_session,
        ResetEvent 7, UnmapViewOfFile 4096, closeHandle 11]
   \<and> dropWhile (\<lambda>y. display_raises y = None) (collaborator_calls active_handler) =
       [setDisplaySize example_session]
   \<and> outcome (leaveSecureDesktop_raising display_raises failing_answers active_handler) =
       Inl RuntimeError"
proof -
  have l: "all_live active_handler"
    by (simp add: all_live_def active_handler_eq)
  have q: "\<forall>x \<in> set (collaborator_calls active_handler). none_raises x = None"
    by (simp add: none_raises_def)
  have f: "bufferAddress active_handler = Some 4096" "mapFile active_handler = Some 11"
    "ipcEventHandle active_handler = 7"
    by (simp_all add: active_handler_eq)
  from leave_order [OF l, of none_raises failing_answers] q f
  have full: "ops (leaveSecureDesktop_raising none_raises failing_answers active_handler) =
       collaborator_calls active_handler @ [ResetEvent 7, UnmapViewOfFile 4096, closeHandle 11]"
    by auto
  have r: "display_raises (setDisplaySize example_session) = Some RuntimeError"
    by (simp add: display_raises_def)
  from leave_order [OF l, of display_raises failing_answers] display_raises_drop(1) r
  have "outcome (leaveSecureDesktop_raising display_raises failing_answers active_handler) =
       Inl RuntimeError"
    by auto
  with l full display_raises_drop(1) show ?thesis
    by (simp add: active_calls none_raises_def)
qed

text \<open>
  An exception raised by \<^verbatim>\<open>setDisplaySize\<close> ends \<^verbatim>\<open>leaveSecureDesktop\<close> before the event is
  reset and the shared buffer released; and with the bundle held and a follower session
  whose transport is \<^verbatim>\<open>None\<close>, six steps are performed, not eight.
\<close>

theorem leave_order_counterexample:
  "ops (leaveSecureDesktop_raising display_raises example_answers active_handler) =
     [BridgeDisconnect \<lparr>t1 = example_transport, t2 = new_relay example_answers\<rparr>,
      ServerClose (new_server example_answers), RelayClose (new_relay example_answers),
      unregisterInbound example_transport SET_BRAILLE_INFO, setDisplaySize example_session]
   \<and> outcome (leaveSecureDesktop_raising display_raises example_answers active_handler) =
       Inl RuntimeError
   \<and> bufferAddress (after (leaveSecureDesktop_raising display_raises example_answers
        active_handler)) = Some 4096
   \<and> mapFile (after (leaveSecureDesktop_raising display_raises example_answers
        active_handler)) = Some 11
   \<and> all_live (active_handler\<lparr>followerSession := Some detached_session\<rparr>)
   \<and> ops (leaveSecureDesktop example_answers
        (active_handler\<lparr>followerSession := Some detached_session\<rparr>)) =
     [BridgeDisconnect \<lparr>t1 = example_transport, t2 = new_relay example_answers\<rparr>,
      ServerClose (new_server example_answers), RelayClose (new_relay example_answers),
      ResetEvent 7, UnmapViewOfFile 4096, closeHandle 11]"
proof -
  have f: "sdBridge active_handler = Some \<lparr>t1 = example_transport, t2 = new_relay example_answers\<rparr>"
    "sdServer active_handler = Some (new_server example_answers)"
    "sdRelay active_handler = Some (new_relay example_answers)"
    "bufferAddress active_handler = Some 4096" "mapFile active_handler = Some 11"
    by (simp_all add: active_handler_eq)
  note run = leave_raising_run [OF f, of display_raises example_answers]
  have r: "display_raises (setDisplaySize example_session) = Some RuntimeError"
    by (simp add: display_raises_def)
  have raised: "ops (leaveSecureDesktop_raising display_raises example_answers active_handler) =
     [BridgeDisconnect \<lparr>t1 = example_transport, t2 = new_relay example_answers\<rparr>,
      ServerClose (new_server example_answers), RelayClose (new_relay example_answers),
      unregisterInbound example_transport SET_BRAILLE_INFO, setDisplaySize example_session]"
    "outcome (leaveSecureDesktop_raising display_raises example_answers active_handler) =
       Inl RuntimeError"
    "bufferAddress (after (leaveSecureDesktop_raising display_raises example_answers
        active_handler)) = Some 4096"
    "mapFile (after (leaveSecureDesktop_raising display_raises example_answers
        active_handler)) = Some 11"
    using run(1-4) by (simp_all add: display_raises_drop r)
  have detached: "all_live (active_handler\<lparr>followerSession := Some detached_session\<rparr>)"
    "ops (leaveSecureDesktop example_answers
        (active_handler\<lparr>followerSession := Some detached_session\<rparr>)) =
     [BridgeDisconnect \<lparr>t1 = example_transport, t2 = new_relay example_answers\<rparr>,
      ServerClose (new_server example_answers), RelayClose (new_relay example_answers),
      ResetEvent 7, UnmapViewOfFile 4096, closeHandle 11]"
    by (simp_all add: all_live_def leave_ops active_handler_eq detached_session_def)
  from raised detached show ?thesis by blast
qed

subsection \<open>The bundle is held whole or not at all\<close>





subsection \<open>A payload that does not fit\<close>

text \<open>
  \<^bold>\<open>C3\<close> (as amended). For every port and channel whose encoding has 64 characters or more
  (it fills the buffer and leaves no cell for the null, or does not fit at all): a call of
  \<^verbatim>\<open>enterSecureDesktop\<close> that starts with no bundle held, in a handler whose follower
  session has a transport, and for which the file mapping and the view succeed, returns
  without an exception; afterwards \<^verbatim>\<open>sdServer\<close>, \<^verbatim>\<open>sdRelay\<close>, \<^verbatim>\<open>sdBridge\<close>,
  \<^verbatim>\<open>_mapFile\<close> and \<^verbatim>\<open>_bufferAddress\<close> are \<^verbatim>\<open>None\<close>; the view has been unmapped, the
  mapping handle closed and the relay server that the call started has been closed.
\<close>

theorem enter_oversized_fail_closed:
  "followerSession s = Some fs \<Longrightarrow> transport fs = Some ft \<Longrightarrow>
   CreateFileMapping_result a = Some m \<Longrightarrow> MapViewOfFile_result a = Some b \<Longrightarrow>
   64 \<le> length (payload a) \<Longrightarrow> all_none s \<Longrightarrow>
   outcome (enterSecureDesktop a s) = Inr ()
   \<and> all_none (after (enterSecureDesktop a s))
   \<and> ops (enterSecureDesktop a s) =
       [CreateFileMapping 128 IPC_FILENAME, MapViewOfFile m 128, ServerNew (new_server a)]
       @ (if length (payload a) = 64 then [BufferStore b (payload a)] else [])
       @ [UnmapViewOfFile b, closeHandle m, ServerClose (new_server a)]"
proof -
  assume path: "followerSession s = Some fs" "transport fs = Some ft"
    "CreateFileMapping_result a = Some m" "MapViewOfFile_result a = Some b"
    and long: "64 \<le> length (payload a)" and idle: "all_none s"
  show ?thesis
  proof (cases "length (payload a) = 64")
    case True
    then have c: "set_value (buffer a) (payload a) = Inr (payload a)"
      by (simp add: set_value_cases)
    have l: "last (payload a) \<noteq> NUL"
      by (simp add: payload_def NUL_def)
    from enter_no_terminator [OF path c l] True idle show ?thesis
      by (simp add: all_none_def)
  next
    case False
    with long have "64 < length (payload a)" by simp
    from enter_too_long [OF path this] False idle show ?thesis
      by (simp add: all_none_def)
  qed
qed

theorem enter_oversized_fail_closed_witness:
  "length (payload long_answers) = 64 \<and> all_none attached_handler
   \<and> outcome (enterSecureDesktop long_answers attached_handler) = Inr ()
   \<and> all_none (after (enterSecureDesktop long_answers attached_handler))
   \<and> ops (enterSecureDesktop long_answers attached_handler) =
       [CreateFileMapping 128 IPC_FILENAME, MapViewOfFile 11 128,
        ServerNew (new_server long_answers), BufferStore 4096 (payload long_answers),
        UnmapViewOfFile 4096, closeHandle 11, ServerClose (new_server long_answers)]"
proof -
  have path: "followerSession attached_handler = Some example_session"
    "transport example_session = Some example_transport"
    "CreateFileMapping_result long_answers = Some 11"
    "MapViewOfFile_result long_answers = Some 4096"
    by (simp_all add: attached_handler_eq example_session_def long_answers_def
        example_answers_def)
  have long: "64 \<le> length (payload long_answers)"
    by (simp add: long_payload)
  have idle: "all_none attached_handler"
    by (simp add: all_none_def attached_handler_eq new_handler_def)
  from enter_oversized_fail_closed [OF path long idle] idle show ?thesis
    by (simp add: long_payload)
qed

lemma enter_long_active:
  "outcome (enterSecureDesktop long_answers active_handler) = Inr ()
   \<and> after (enterSecureDesktop long_answers active_handler) = active_handler\<lparr>sdServer := None\<rparr>"
proof -
  have c: "set_value (buffer long_answers) (payload long_answers) = Inr (payload long_answers)"
    by (simp add: set_value_cases long_payload)
  have l: "last (payload long_answers) \<noteq> NUL"
    by (simp add: payload_def NUL_def)
  have "followerSession active_handler = Some example_session"
    "transport example_session = Some example_transport"
    "CreateFileMapping_result long_answers = Some 11"
    "MapViewOfFile_result long_answers = Some 4096"
    by (simp_all add: active_handler_eq example_session_def long_answers_def example_answers_def)
  from enter_no_terminator [OF this c l] show ?thesis by simp
qed

text \<open>
  Started on a handler that holds a bundle, the same abort leaves the relay transport, the
  bridge and the mapping of that bundle set: the abort path releases what the call itself
  acquired and nothing else.
\<close>

theorem enter_oversized_counterexample:
  "length (payload long_answers) = 64
   \<and> outcome (enterSecureDesktop long_answers active_handler) = Inr ()
   \<and> sdRelay (after (enterSecureDesktop long_answers active_handler))
       = Some (new_relay example_answers)
   \<and> sdBridge (after (enterSecureDesktop long_answers active_handler))
       = Some \<lparr>t1 = example_transport, t2 = new_relay example_answers\<rparr>
   \<and> mapFile (after (enterSecureDesktop long_answers active_handler)) = Some 11
   \<and> bufferAddress (after (enterSecureDesktop long_answers active_handler)) = Some 4096"
  by (simp add: long_payload enter_long_active) (simp add: active_handler_eq)

subsection \<open>\<^verbatim>\<open>initializeSecureDesktop\<close>, path by path\<close>

lemma read_connection_ops:
  "set (ops (read_connection a addr r)) \<subseteq>
     set (ops r) \<union> {BufferRead addr, SocketOpen, SocketClose, GetModuleFileName}
     \<union> range localListeningSocketExists"
  by (auto simp add: read_connection_def Let_def split: sum.splits option.splits prod.splits)

lemma read_connection_outcome:
  "outcome (read_connection a addr r) =
    (case json_loads a (wstring_at (buffer a)) of Inl e \<Rightarrow> Inl e
     | Inr data \<Rightarrow>
        (case unpack2 data of Inl e \<Rightarrow> Inl e
         | Inr (p, c) \<Rightarrow>
            (case socket_error a of Some e \<Rightarrow> Inl e
             | None \<Rightarrow>
                (case listeningSocketExists a p of Inl e \<Rightarrow> Inl e
                 | Inr found \<Rightarrow>
                    if found
                    then Inr \<lparr>hostname = ''127.0.0.1'', mode = FOLLOWER, key = c, port = p,
                             insecure = True\<rparr>
                    else Inl RuntimeError))))"
  by (simp add: read_connection_def Let_def split: sum.splits option.splits prod.splits)

lemma initialize_no_mapping:
  "OpenFileMapping_result a = None \<Longrightarrow>
   ops (initializeSecureDesktop a s) = [OpenFileMapping IPC_FILENAME]
   \<and> outcome (initializeSecureDesktop a s) = Inr None"
  by (simp add: initializeSecureDesktop_def Let_def cong: let_weak_cong)

lemma initialize_no_view:
  "OpenFileMapping_result a = Some m \<Longrightarrow> MapViewOfFile_result a = None \<Longrightarrow>
   ops (initializeSecureDesktop a s) =
     [OpenFileMapping IPC_FILENAME, MapViewOfFile m 128, closeHandle m]
   \<and> outcome (initializeSecureDesktop a s) = Inr None"
  by (simp add: initializeSecureDesktop_def Let_def IPC_MAXLEN_def sizeof_WCHAR_def
      cong: let_weak_cong)

lemma initialize_no_signal:
  "OpenFileMapping_result a = Some m \<Longrightarrow> MapViewOfFile_result a = Some b \<Longrightarrow>
   WaitForSingleObject_result a \<noteq> OBJECT_0 \<Longrightarrow>
   ops (initializeSecureDesktop a s) =
     [OpenFileMapping IPC_FILENAME, MapViewOfFile m 128,
      WaitForSingleObject (ipcEventHandle s) 2000]
   \<and> outcome (initializeSecureDesktop a s) = Inr None"
  by (cases "WaitForSingleObject_result a")
     (simp_all add: initializeSecureDesktop_def Let_def IPC_MAXLEN_def sizeof_WCHAR_def
      cong: let_weak_cong)

lemma initialize_signalled:
  "OpenFileMapping_result a = Some m \<Longrightarrow> MapViewOfFile_result a = Some b \<Longrightarrow>
   WaitForSingleObject_result a = OBJECT_0 \<Longrightarrow>
   ops (initializeSecureDesktop a s) =
     ops (read_connection a b (waited m s)) @ [UnmapViewOfFile b, closeHandle m]
   \<and> outcome (initializeSecureDesktop a s) =
       Inr (case outcome (read_connection a b (waited m s)) of
              Inl e \<Rightarrow> None | Inr info \<Rightarrow> Some info)"
proof -
  assume h: "OpenFileMapping_result a = Some m" "MapViewOfFile_result a = Some b"
    "WaitForSingleObject_result a = OBJECT_0"
  have w: "perform (WaitForSingleObject (ipcEventHandle s) 2000)
             (perform (MapViewOfFile m 128)
               (perform (OpenFileMapping IPC_FILENAME) (log log_info (begin_run s))))
           = waited m s"
    by (simp add: waited_def perform_def log_def begin_run_def)
  show ?thesis
    by (cases "outcome (read_connection a b (waited m s))")
       (simp_all add: initializeSecureDesktop_def h w Let_def IPC_MAXLEN_def sizeof_WCHAR_def
        cong: let_weak_cong)
qed


lemma initialize_returns: "\<exists>r. outcome (initializeSecureDesktop a s) = Inr r"
proof (cases "OpenFileMapping_result a")
  case None
  then show ?thesis by (simp add: initialize_no_mapping)
next
  case (Some m)
  note m = this
  show ?thesis
  proof (cases "MapViewOfFile_result a")
    case None
    with m show ?thesis by (simp add: initialize_no_view)
  next
    case (Some b)
    with m show ?thesis
      by (cases "WaitForSingleObject_result a = OBJECT_0")
         (simp_all add: initialize_signalled initialize_no_signal)
  qed
qed

lemma initialize_ops_cases:
  "set (ops (initializeSecureDesktop a s)) \<subseteq>
     {OpenFileMapping IPC_FILENAME, WaitForSingleObject (ipcEventHandle s) 2000,
      SocketOpen, SocketClose, GetModuleFileName}
     \<union> range (\<lambda>m. MapViewOfFile m 128) \<union> range closeHandle \<union> range UnmapViewOfFile
     \<union> range BufferRead \<union> range localListeningSocketExists"
proof (cases "OpenFileMapping_result a")
  case None
  then show ?thesis by (simp add: initialize_no_mapping)
next
  case (Some m)
  note m = this
  show ?thesis
  proof (cases "MapViewOfFile_result a")
    case None
    with m show ?thesis by (simp add: initialize_no_view)
  next
    case (Some b)
    note b = this
    show ?thesis
    proof (cases "WaitForSingleObject_result a = OBJECT_0")
      case True
      have "set (ops (waited m s)) = {OpenFileMapping IPC_FILENAME, MapViewOfFile m 128,
            WaitForSingleObject (ipcEventHandle s) 2000}"
        by (simp add: waited_def)
      with read_connection_ops [of a b "waited m s"] initialize_signalled [OF m b True, of s]
      show ?thesis by auto
    next
      case False
      with m b show ?thesis by (simp add: initialize_no_signal)
    qed
  qed
qed

lemma initialize_waits:
  "OpenFileMapping_result a \<noteq> None \<Longrightarrow> MapViewOfFile_result a \<noteq> None \<Longrightarrow>
   WaitForSingleObject (ipcEventHandle s) 2000 \<in> set (ops (initializeSecureDesktop a s))"
proof -
  assume "OpenFileMapping_result a \<noteq> None" "MapViewOfFile_result a \<noteq> None"
  then obtain m b where m: "OpenFileMapping_result a = Some m"
    and b: "MapViewOfFile_result a = Some b" by auto
  show ?thesis
  proof (cases "WaitForSingleObject_result a = OBJECT_0")
    case True
    have "WaitForSingleObject (ipcEventHandle s) 2000 \<in> set (ops (waited m s))"
      by (simp add: waited_def)
    then have "WaitForSingleObject (ipcEventHandle s) 2000
        \<in> set (ops (read_connection a b (waited m s)))"
      by (simp add: read_connection_def Let_def split: sum.splits option.splits prod.splits)
    with initialize_signalled [OF m b True, of s] show ?thesis by simp
  next
    case False
    with m b show ?thesis by (simp add: initialize_no_signal)
  qed
qed

lemma initialize_outcome:
  "outcome (initializeSecureDesktop a s) =
    Inr (case OpenFileMapping_result a of None \<Rightarrow> None
         | Some m \<Rightarrow>
         (case MapViewOfFile_result a of None \<Rightarrow> None
          | Some b \<Rightarrow>
            if WaitForSingleObject_result a \<noteq> OBJECT_0 then None
            else
             (case json_loads a (wstring_at (buffer a)) of Inl e \<Rightarrow> None
              | Inr data \<Rightarrow>
                 (case unpack2 data of Inl e \<Rightarrow> None
                  | Inr (p, c) \<Rightarrow>
                     (case socket_error a of Some e \<Rightarrow> None
                      | None \<Rightarrow>
                         (case listeningSocketExists a p of Inl e \<Rightarrow> None
                          | Inr found \<Rightarrow>
                             if found
                             then Some \<lparr>hostname = ''127.0.0.1'', mode = FOLLOWER, key = c,
                                        port = p, insecure = True\<rparr>
                             else None))))))"
proof (cases "OpenFileMapping_result a")
  case None
  then show ?thesis by (simp add: initialize_no_mapping)
next
  case (Some m)
  note m = this
  show ?thesis
  proof (cases "MapViewOfFile_result a")
    case None
    with m show ?thesis by (simp add: initialize_no_view)
  next
    case (Some b)
    note b = this
    show ?thesis
    proof (cases "WaitForSingleObject_result a = OBJECT_0")
      case True
      with m b initialize_signalled [OF m b True, of s] show ?thesis
        by (simp add: read_connection_outcome split: sum.splits option.splits prod.splits)
    next
      case False
      with m b show ?thesis by (simp add: initialize_no_signal)
    qed
  qed
qed

text \<open>
  \<^bold>\<open>C5.\<close> \<^verbatim>\<open>initializeSecureDesktop\<close> never lets an exception escape. Every wait it
  performs is on the handler's event with a timeout of 2000 ms, and it waits whenever the
  mapping is opened and the view mapped. It returns \<^verbatim>\<open>None\<close> when the mapping cannot be
  opened or mapped, when the wait answers anything but \<^verbatim>\<open>WAIT.OBJECT_0\<close> (timeout,
  failure, unknown value), when \<^verbatim>\<open>json.loads\<close> raises, when the decoded value does not
  unpack into two items, when the socket probe raises, and when
  \<^verbatim>\<open>localListeningSocketExists\<close> raises or answers false.
\<close>

theorem initialize_bounded_wait_no_raise:
  "(\<exists>r. outcome (initializeSecureDesktop a s) = Inr r)
   \<and> (\<forall>h t. WaitForSingleObject h t \<in> set (ops (initializeSecureDesktop a s))
          \<longrightarrow> h = ipcEventHandle s \<and> t = 2000)
   \<and> (OpenFileMapping_result a \<noteq> None \<and> MapViewOfFile_result a \<noteq> None
        \<longrightarrow> WaitForSingleObject (ipcEventHandle s) 2000
              \<in> set (ops (initializeSecureDesktop a s)))
   \<and> (OpenFileMapping_result a = None \<or> MapViewOfFile_result a = None
        \<or> WaitForSingleObject_result a \<noteq> OBJECT_0
        \<or> (\<exists>e. json_loads a (wstring_at (buffer a)) = Inl e)
        \<or> (\<exists>data e. json_loads a (wstring_at (buffer a)) = Inr data \<and> unpack2 data = Inl e)
        \<or> socket_error a \<noteq> None
        \<or> (\<exists>data p c. json_loads a (wstring_at (buffer a)) = Inr data
              \<and> unpack2 data = Inr (p, c) \<and> listeningSocketExists a p \<noteq> Inr True)
       \<longrightarrow> outcome (initializeSecureDesktop a s) = Inr None)"
proof -
  have "\<forall>h t. WaitForSingleObject h t \<in> set (ops (initializeSecureDesktop a s))
          \<longrightarrow> h = ipcEventHandle s \<and> t = 2000"
    using initialize_ops_cases [of a s] by auto
  moreover have "OpenFileMapping_result a = None \<or> MapViewOfFile_result a = None
        \<or> WaitForSingleObject_result a \<noteq> OBJECT_0
        \<or> (\<exists>e. json_loads a (wstring_at (buffer a)) = Inl e)
        \<or> (\<exists>data e. json_loads a (wstring_at (buffer a)) = Inr data \<and> unpack2 data = Inl e)
        \<or> socket_error a \<noteq> None
        \<or> (\<exists>data p c. json_loads a (wstring_at (buffer a)) = Inr data
              \<and> unpack2 data = Inr (p, c) \<and> listeningSocketExists a p \<noteq> Inr True)
       \<longrightarrow> outcome (initializeSecureDesktop a s) = Inr None"
    by (auto simp add: initialize_outcome split: sum.splits option.splits prod.splits)
  ultimately show ?thesis
    using initialize_returns [of a s] initialize_waits [of a s] by blast
qed

theorem initialize_bounded_wait_no_raise_witness:
  "WaitForSingleObject_result timeout_answers \<noteq> OBJECT_0
   \<and> OpenFileMapping_result timeout_answers \<noteq> None
   \<and> MapViewOfFile_result timeout_answers \<noteq> None
   \<and> outcome (initializeSecureDesktop timeout_answers new_handler) = Inr None
   \<and> WaitForSingleObject 7 2000 \<in> set (ops (initializeSecureDesktop timeout_answers new_handler))"
proof -
  have h: "WaitForSingleObject_result timeout_answers \<noteq> OBJECT_0"
    "OpenFileMapping_result timeout_answers \<noteq> None"
    "MapViewOfFile_result timeout_answers \<noteq> None"
    "ipcEventHandle new_handler = 7"
    by (simp_all add: timeout_answers_def example_answers_def new_handler_def)
  with initialize_bounded_wait_no_raise [of timeout_answers new_handler]
  show ?thesis by simp
qed

text \<open>
  \<^bold>\<open>C1.\<close> The claim is that the view is unmapped and the mapping handle closed on every
  exit of \<^verbatim>\<open>initializeSecureDesktop\<close> once both were obtained. The three returns that
  follow \<^verbatim>\<open>WaitForSingleObject\<close> stand before the \<^verbatim>\<open>try\<close> whose \<^verbatim>\<open>finally\<close> releases
  them. With the mapping opened (handle 11), the view mapped (address 4096) and a wait that
  times out, the method returns \<^verbatim>\<open>None\<close> having performed neither
  \<^verbatim>\<open>UnmapViewOfFile\<close> nor \<^verbatim>\<open>closeHandle\<close>; when the event is signalled, both are
  performed last.
\<close>

theorem initialize_leaks_on_timeout:
  "OpenFileMapping_result timeout_answers = Some 11
   \<and> MapViewOfFile_result timeout_answers = Some 4096
   \<and> ops (initializeSecureDesktop timeout_answers new_handler) =
       [OpenFileMapping IPC_FILENAME, MapViewOfFile 11 128, WaitForSingleObject 7 2000]
   \<and> outcome (initializeSecureDesktop timeout_answers new_handler) = Inr None
   \<and> ops (initializeSecureDesktop example_answers new_handler) =
       [OpenFileMapping IPC_FILENAME, MapViewOfFile 11 128, WaitForSingleObject 7 2000,
        BufferRead 4096, SocketOpen, SocketClose, GetModuleFileName,
        localListeningSocketExists (JInt 50123), UnmapViewOfFile 4096, closeHandle 11]"
proof -
  have t: "OpenFileMapping_result timeout_answers = Some 11"
    "MapViewOfFile_result timeout_answers = Some 4096"
    "WaitForSingleObject_result timeout_answers \<noteq> OBJECT_0"
    by (simp_all add: timeout_answers_def example_answers_def)
  have e: "OpenFileMapping_result example_answers = Some 11"
    "MapViewOfFile_result example_answers = Some 4096"
    "WaitForSingleObject_result example_answers = OBJECT_0"
    by (simp_all add: example_answers_def)
  have "ops (read_connection example_answers 4096 (waited 11 new_handler)) =
       [OpenFileMapping IPC_FILENAME, MapViewOfFile 11 128, WaitForSingleObject 7 2000,
        BufferRead 4096, SocketOpen, SocketClose, GetModuleFileName,
        localListeningSocketExists (JInt 50123)]"
    by (simp add: read_connection_def Let_def waited_def new_handler_def example_answers_def)
  with initialize_no_signal [OF t, of new_handler] initialize_signalled [OF e, of new_handler] t
  show ?thesis by (simp add: new_handler_def)
qed

subsection \<open>The event\<close>





subsection \<open>Registering a handler twice\<close>

lemma setitem_twice: "setitem (setitem d hkey v) hkey v' = setitem d hkey v'"
  by (induction d) auto

text \<open>A second registration under the same key leaves the registrar as the first one left
  it: one item for the handler, at the place of the first registration.\<close>

lemma register_again:
  assumes "register allow r m h = Inr r1" and "getHandlerKey m' h = getHandlerKey m h"
  shows "register allow r1 m' h = Inr r1"
  using assms
  by (auto simp add: register_def Let_def setitem_twice split: if_splits handler.splits)

lemma handlers_other:
  assumes "well_keyed alive d" "getHandlerKey 0 h \<notin> fst ` set d"
  shows "h \<notin> set (fst (handlers alive d))"
  using assms
  by (induction d) (auto simp add: well_keyed_def split: sum.splits option.splits)

lemma key_of_yielded: "yields alive h \<Longrightarrow> getHandlerKey m h = getHandlerKey 0 h"
  by (auto simp add: yields_def getHandlerKey_def py_id_def split: handler.splits)

lemma yields_call:
  "yields alive h \<Longrightarrow>
   call_weak alive (case h of BoundMethod inst fn \<Rightarrow> BoundMethodWeakref inst fn hkey
                    | Function f ps \<Rightarrow> AnnotatableWeakref f ps hkey) = Inr (Some h)"
  by (auto simp add: yields_def call_weak_def split: handler.splits)

lemma handlers_once:
  assumes "well_keyed alive d" "distinct (map fst d)" "yields alive h"
    "snd (handlers alive d) = None"
    "w = (case h of BoundMethod inst fn \<Rightarrow> BoundMethodWeakref inst fn hkey
          | Function f ps \<Rightarrow> AnnotatableWeakref f ps hkey)"
    "getHandlerKey 0 h = hkey"
  shows "count_list (fst (handlers alive (setitem d hkey w))) h = 1"
  using assms
proof (induction d)
  case Nil
  then show ?case using yields_call [of alive h hkey] by simp
next
  case (Cons p d)
  obtain k v where p: "p = (k, v)" by (cases p)
  show ?case
  proof (cases "k = hkey")
    case True
    with Cons.prems p have "hkey \<notin> fst ` set d" by auto
    moreover from Cons.prems have "well_keyed alive d" by (simp add: well_keyed_def)
    ultimately have "h \<notin> set (fst (handlers alive d))"
      using handlers_other [of alive d h] Cons.prems by simp
    then have "count_list (fst (handlers alive d)) h = 0" by (simp add: count_list_0_iff)
    with True p Cons.prems yields_call [of alive h hkey] show ?thesis by simp
  next
    case False
    from Cons.prems have wk: "well_keyed alive d" by (simp add: well_keyed_def)
    from Cons.prems p have nex: "snd (handlers alive d) = None"
      by (auto split: sum.splits option.splits)
    from Cons.prems p have d: "distinct (map fst d)" by simp
    note IH = Cons.IH [OF wk d Cons.prems(3) nex Cons.prems(5,6)]
    have "\<And>h'. call_weak alive v = Inr (Some h') \<Longrightarrow> h' \<noteq> h"
      using Cons.prems(1,6) p False by (auto simp add: well_keyed_def)
    with False p IH Cons.prems(4) show ?thesis
      by (auto split: sum.splits option.splits)
  qed
qed

text \<open>For a handler that the generator can yield (a function, or a bound method of an
  instance that is true), registered in a registrar whose items stand under the keys of
  their handlers and whose iteration raises nothing: it is yielded exactly once after the
  first registration, and a second registration changes nothing.\<close>

lemma register_twice_yielded_once:
  assumes first: "register allow r m h = Inr r1"
    and live: "yields alive h"
    and keyed: "well_keyed alive (handlersDict r)" "distinct (map fst (handlersDict r))"
    and quiet: "snd (handlers alive (handlersDict r)) = None"
  shows "register allow r1 m' h = Inr r1
    \<and> count_list (fst (handlers alive (handlersDict r1))) h = 1"
proof -
  have "getHandlerKey m' h = getHandlerKey m h"
    using key_of_yielded [OF live, of m'] key_of_yielded [OF live, of m] by simp
  with first have again: "register allow r1 m' h = Inr r1"
    by (rule register_again)
  from first have "handlersDict r1 =
      setitem (handlersDict r) (getHandlerKey m h)
        (case h of BoundMethod inst fn \<Rightarrow> BoundMethodWeakref inst fn (getHandlerKey m h)
         | Function f ps \<Rightarrow> AnnotatableWeakref f ps (getHandlerKey m h))"
    by (auto simp add: register_def Let_def split: if_splits)
  with handlers_once [OF keyed live quiet refl, of "getHandlerKey m h"]
    key_of_yielded [OF live, of m]
  have "count_list (fst (handlers alive (handlersDict r1))) h = 1" by simp
  with again show ?thesis by simp
qed

text \<open>
  \<^bold>\<open>C10.\<close> The claim is that after a second \<^verbatim>\<open>register(h)\<close> of a handler that is alive,
  \<^verbatim>\<open>handlers\<close> yields \<open>h\<close> exactly once, at the place of the first registration. The
  dictionary does keep one item at that place. But \<^verbatim>\<open>BoundMethodWeakref.__call__\<close> tests
  \<^verbatim>\<open>if not inst\<close>, the truth value of the instance, where it means that the instance is dead:
  for a bound method of an instance that is alive and false (an empty collection, say), both
  registrations succeed, they leave one item under the key \<^verbatim>\<open>id(h)\<close>, and \<^verbatim>\<open>handlers\<close>
  never yields \<open>h\<close>.
\<close>

theorem register_false_instance_never_yielded:
  "register True example_registrar 21 example_method =
     Inr (example_registrar\<lparr>handlersDict :=
       [(IdKey 3, AnnotatableWeakref 3 [''sender''] (IdKey 3)),
        (IdKey 21, BoundMethodWeakref empty_collection 9 (IdKey 21))]\<rparr>)
   \<and> register True (example_registrar\<lparr>handlersDict :=
       [(IdKey 3, AnnotatableWeakref 3 [''sender''] (IdKey 3)),
        (IdKey 21, BoundMethodWeakref empty_collection 9 (IdKey 21))]\<rparr>) 21 example_method =
     Inr (example_registrar\<lparr>handlersDict :=
       [(IdKey 3, AnnotatableWeakref 3 [''sender''] (IdKey 3)),
        (IdKey 21, BoundMethodWeakref empty_collection 9 (IdKey 21))]\<rparr>)
   \<and> handlers (\<lambda>i. True)
       [(IdKey 3, AnnotatableWeakref 3 [''sender''] (IdKey 3)),
        (IdKey 21, BoundMethodWeakref empty_collection 9 (IdKey 21))] =
     ([example_function], None)
   \<and> count_list [example_function] example_method = 0"
  by (simp add: register_def example_registrar_def example_method_def example_function_def
      getHandlerKey_def py_id_def empty_collection_def call_weak_def Let_def)

end
